theory Spec2Isabelle
  imports Main
begin

section \<open>Data model of combine_labels.py\<close>

type_synonym path = string

text \<open>
  Exceptions of the Python run time and of the libraries that the script can meet.
  None of them is declared by the script itself; it only lets them propagate
  (\<^verbatim>\<open>load_labels\<close>) or catches them with \<^verbatim>\<open>except Exception\<close> (the per-file loop).
\<close>

datatype error =
    FileNotFoundError path
  | IsADirectoryError path
  | NotADirectoryError path
  | FileExistsError path
  | JSONDecodeError
  | ParserError
  | KeyError string
  | ValueError

text \<open>
  The file system: a path is absent, a directory, or a file with a content of type \<open>'f\<close>
  (the bytes). Paths are compared as strings.
\<close>

datatype 'f node = File 'f | Dir

type_synonym 'f filesystem = "path \<Rightarrow> 'f node option"

text \<open>
  A cell of a pandas table: text as \<^verbatim>\<open>read_csv\<close> left it, an integer, or a parsed
  temporal value of type \<open>'ts\<close> (what \<^verbatim>\<open>pd.to_datetime\<close> returns).
\<close>

datatype 'ts cell = Str string | Num int | Stamp 'ts

text \<open>
  A DataFrame: the length of its index and its columns in order, each a name with one
  cell per row.
\<close>

record 'ts dataframe =
  nrows :: nat
  columns :: "(string \<times> 'ts cell list) list"

definition wf_df :: "'ts dataframe \<Rightarrow> bool" where
  "wf_df df \<longleftrightarrow>
     distinct (map fst (columns df)) \<and> list_all (\<lambda>c. length (snd c) = nrows df) (columns df)"

text \<open>
  The library functions the script calls and does not define: \<^verbatim>\<open>os.path.join\<close>,
  \<^verbatim>\<open>os.path.dirname\<close>, the chain of directories \<^verbatim>\<open>os.makedirs\<close> walks (the proper
  ancestors of a path, outermost first), \<^verbatim>\<open>json.load\<close>, \<^verbatim>\<open>pd.read_csv\<close>,
  \<^verbatim>\<open>DataFrame.to_csv(index=False)\<close> and \<^verbatim>\<open>pd.to_datetime\<close> on one value.
  The label index is the dict that \<^verbatim>\<open>json.load\<close> returns, in its iteration order, each
  key with its list of timestamp strings.
\<close>

record ('f, 'ts) library =
  path_join :: "path \<Rightarrow> path \<Rightarrow> path"
  path_dirname :: "path \<Rightarrow> path"
  path_parents :: "path \<Rightarrow> path list"
  json_load :: "'f \<Rightarrow> error + (path \<times> string list) list"
  read_csv :: "'f \<Rightarrow> error + 'ts dataframe"
  to_csv :: "'ts dataframe \<Rightarrow> 'f"
  to_datetime :: "'ts cell \<Rightarrow> 'ts option"

text \<open>What \<^verbatim>\<open>print\<close> writes, one constructor per format string of the script.\<close>

datatype message =
    Loading_labels
  | Warning_file_not_found path
  | Processing path
  | Total_points nat
  | Anomaly_points int
  | Normal_points int
  | Saved_to path
  | Updated_original_file
  | Error_processing path error
  | Processing_complete
  | Successfully_processed nat
  | Errors_encountered nat
  | Banner
  | Data_directory path
  | Labels_file path
  | Blank_line
  | Error_data_directory_not_found path
  | Error_labels_file_not_found path
  | Choose_an_option
  | Creating_output_directory path
  | Processing_files_in_place

record 'f world =
  files :: "'f filesystem"
  stdout :: "message list"

definition print :: "message \<Rightarrow> 'f world \<Rightarrow> 'f world" where
  "print m w = w\<lparr>stdout := stdout w @ [m]\<rparr>"

section \<open>Operating system calls\<close>

definition path_exists :: "'f filesystem \<Rightarrow> path \<Rightarrow> bool" where
  "path_exists fs p \<longleftrightarrow> fs p \<noteq> None"

text \<open>\<^verbatim>\<open>open(p, 'r')\<close> followed by reading the whole file.\<close>

definition open_read :: "'f filesystem \<Rightarrow> path \<Rightarrow> error + 'f" where
  "open_read fs p =
     (case fs p of
        None \<Rightarrow> Inl (FileNotFoundError p)
      | Some Dir \<Rightarrow> Inl (IsADirectoryError p)
      | Some (File c) \<Rightarrow> Inr c)"

text \<open>
  Writing a whole file. The directory of the path exists at both call sites of the
  script (the file itself exists in place; the directory has just been made in the
  mirrored tree), so the only failure is a directory standing at the path.
\<close>

definition write_file :: "'f filesystem \<Rightarrow> path \<Rightarrow> 'f \<Rightarrow> error + 'f filesystem" where
  "write_file fs p c =
     (case fs p of
        Some Dir \<Rightarrow> Inl (IsADirectoryError p)
      | _ \<Rightarrow> Inr (fs(p \<mapsto> File c)))"

text \<open>
  \<^verbatim>\<open>os.makedirs(p, exist_ok=True)\<close>: walks the chain of directories that ends with \<open>p\<close>; a
  missing one is created, an existing directory is kept, a file in the way raises
  (FileExistsError when it stands at \<open>p\<close> itself, NotADirectoryError when it stands at an
  ancestor). Directories made before the failure stay. The empty path raises at once.
\<close>

fun mkdir_chain :: "'f filesystem \<Rightarrow> path list \<Rightarrow> 'f filesystem \<times> error option" where
  "mkdir_chain fs [] = (fs, None)"
| "mkdir_chain fs (d # ds) =
     (case fs d of
        None \<Rightarrow> mkdir_chain (fs(d \<mapsto> Dir)) ds
      | Some Dir \<Rightarrow> mkdir_chain fs ds
      | Some (File c) \<Rightarrow>
          (fs, Some (if ds = [] then FileExistsError d else NotADirectoryError d)))"

definition makedirs :: "('f, 'ts) library \<Rightarrow> 'f filesystem \<Rightarrow> path \<Rightarrow> 'f filesystem \<times> error option" where
  "makedirs lib fs p =
     (if p = [] then (fs, Some (FileNotFoundError p))
      else mkdir_chain fs (path_parents lib p @ [p]))"

section \<open>DataFrame operations\<close>

text \<open>\<^verbatim>\<open>df[name]\<close>: the column, or KeyError.\<close>

definition get_col :: "'ts dataframe \<Rightarrow> string \<Rightarrow> error + 'ts cell list" where
  "get_col df name =
     (case map_of (columns df) name of
        None \<Rightarrow> Inl (KeyError name)
      | Some c \<Rightarrow> Inr c)"

text \<open>
  \<^verbatim>\<open>df[name] = values\<close>: an existing column is replaced where it stands, a new one is
  appended after the others.
\<close>

fun assign :: "string \<Rightarrow> 'a \<Rightarrow> (string \<times> 'a) list \<Rightarrow> (string \<times> 'a) list" where
  "assign name v [] = [(name, v)]"
| "assign name v ((n, c) # cs) =
     (if n = name then (n, v) # cs else (n, c) # assign name v cs)"

definition set_col :: "'ts dataframe \<Rightarrow> string \<Rightarrow> 'ts cell list \<Rightarrow> 'ts dataframe" where
  "set_col df name vals = df\<lparr>columns := assign name vals (columns df)\<rparr>"

text \<open>\<^verbatim>\<open>pd.to_datetime\<close> on a column: every cell is converted, one bad cell raises.\<close>

fun to_datetime_all :: "('f, 'ts) library \<Rightarrow> 'ts cell list \<Rightarrow> error + 'ts list" where
  "to_datetime_all lib [] = Inr []"
| "to_datetime_all lib (c # cs) =
     (case to_datetime lib c of
        None \<Rightarrow> Inl ValueError
      | Some t \<Rightarrow>
          (case to_datetime_all lib cs of
             Inl e \<Rightarrow> Inl e
           | Inr ts \<Rightarrow> Inr (t # ts)))"

text \<open>\<^verbatim>\<open>series.isin(values)\<close>: one truth value per row.\<close>

definition isin :: "'ts cell list \<Rightarrow> 'ts list \<Rightarrow> bool list" where
  "isin col vals = map (\<lambda>c. c \<in> set (map Stamp vals)) col"

text \<open>\<^verbatim>\<open>df.loc[mask, name] = v\<close>: the rows selected by the mask get \<open>v\<close> in column \<open>name\<close>.\<close>

definition loc_assign :: "'ts dataframe \<Rightarrow> bool list \<Rightarrow> string \<Rightarrow> 'ts cell \<Rightarrow> error + 'ts dataframe" where
  "loc_assign df sel name v =
     (case get_col df name of
        Inl e \<Rightarrow> Inl e
      | Inr col \<Rightarrow> Inr (set_col df name (map (\<lambda>(m, c). if m then v else c) (zip sel col))))"

text \<open>\<^verbatim>\<open>series.sum()\<close> of an integer column.\<close>

fun cell_int :: "'ts cell \<Rightarrow> int" where
  "cell_int (Num n) = n"
| "cell_int _ = 0"

definition series_sum :: "'ts cell list \<Rightarrow> int" where
  "series_sum col = sum_list (map cell_int col)"

section \<open>The script\<close>

definition load_labels :: "('f, 'ts) library \<Rightarrow> 'f filesystem \<Rightarrow> path \<Rightarrow> error + (path \<times> string list) list" where
  "load_labels lib fs labels_file =
     (case open_read fs labels_file of
        Inl e \<Rightarrow> Inl e
      | Inr c \<Rightarrow> json_load lib c)"

text \<open>Lines 27 to 40 of \<^verbatim>\<open>process_csv_file\<close>: the table once it is read.\<close>

definition add_anomaly_column :: "('f, 'ts) library \<Rightarrow> 'ts dataframe \<Rightarrow> string list \<Rightarrow> error + 'ts dataframe" where
  "add_anomaly_column lib df anomaly_timestamps =
     (case get_col df ''timestamp'' of
        Inl e \<Rightarrow> Inl e
      | Inr raw \<Rightarrow>
          (case to_datetime_all lib raw of
             Inl e \<Rightarrow> Inl e
           | Inr parsed \<Rightarrow>
               (let df1 = set_col df ''timestamp'' (map Stamp parsed);
                    df2 = set_col df1 ''anomaly'' (replicate (nrows df1) (Num 0))
                in if anomaly_timestamps \<noteq> [] then
                     (case to_datetime_all lib (map Str anomaly_timestamps) of
                        Inl e \<Rightarrow> Inl e
                      | Inr anomaly_times \<Rightarrow>
                          (case get_col df2 ''timestamp'' of
                             Inl e \<Rightarrow> Inl e
                           | Inr col \<Rightarrow> loc_assign df2 (isin col anomaly_times) ''anomaly'' (Num 1)))
                   else Inr df2)))"

definition process_csv_file :: "('f, 'ts) library \<Rightarrow> 'f filesystem \<Rightarrow> path \<Rightarrow> string list \<Rightarrow> error + 'ts dataframe" where
  "process_csv_file lib fs csv_path anomaly_timestamps =
     (case open_read fs csv_path of
        Inl e \<Rightarrow> Inl e
      | Inr c \<Rightarrow>
          (case read_csv lib c of
             Inl e \<Rightarrow> Inl e
           | Inr df \<Rightarrow> add_anomaly_column lib df anomaly_timestamps))"

text \<open>
  The state of the \<^verbatim>\<open>for\<close> loop: the world and the two counters
  \<^verbatim>\<open>processed_count\<close> and \<^verbatim>\<open>error_count\<close>.
\<close>

type_synonym 'f run_state = "'f world \<times> nat \<times> nat"

text \<open>The handler \<^verbatim>\<open>except Exception as e\<close> of the loop body.\<close>

definition handle_exception :: "path \<Rightarrow> error \<Rightarrow> 'f world \<Rightarrow> nat \<Rightarrow> nat \<Rightarrow> 'f run_state" where
  "handle_exception file_path e w processed_count error_count =
     (print (Error_processing file_path e) w, processed_count, error_count + 1)"

text \<open>
  The test \<^verbatim>\<open>if output_dir:\<close>: \<^verbatim>\<open>None\<close> and the empty string are both false, and
  then the files are overwritten in place.
\<close>

definition mirror_root :: "path option \<Rightarrow> path option" where
  "mirror_root output_dir =
     (case output_dir of
        None \<Rightarrow> None
      | Some d \<Rightarrow> if d = [] then None else Some d)"

text \<open>Lines 86 to 98: saving the table and counting the file as processed.\<close>

definition save_processed ::
  "('f, 'ts) library \<Rightarrow> path option \<Rightarrow> path \<Rightarrow> path \<Rightarrow> 'ts dataframe \<Rightarrow> 'f world \<Rightarrow> nat \<Rightarrow> nat \<Rightarrow> 'f run_state" where
  "save_processed lib output_dir file_path full_csv_path df w processed_count error_count =
     (case mirror_root output_dir of
        Some d \<Rightarrow>
          (let output_file_path = path_join lib d file_path;
               output_file_dir = path_dirname lib output_file_path
           in case makedirs lib (files w) output_file_dir of
                (fs, Some e) \<Rightarrow>
                  handle_exception file_path e (w\<lparr>files := fs\<rparr>) processed_count error_count
              | (fs, None) \<Rightarrow>
                  (case write_file fs output_file_path (to_csv lib df) of
                     Inl e \<Rightarrow>
                       handle_exception file_path e (w\<lparr>files := fs\<rparr>) processed_count error_count
                   | Inr fs' \<Rightarrow>
                       (print (Saved_to output_file_path) (w\<lparr>files := fs'\<rparr>),
                        processed_count + 1, error_count)))
      | None \<Rightarrow>
          (case write_file (files w) full_csv_path (to_csv lib df) of
             Inl e \<Rightarrow> handle_exception file_path e w processed_count error_count
           | Inr fs' \<Rightarrow>
               (print Updated_original_file (w\<lparr>files := fs'\<rparr>),
                processed_count + 1, error_count)))"

text \<open>One iteration of the loop over \<^verbatim>\<open>labels.items()\<close> (lines 64 to 102).\<close>

definition process_entry ::
  "('f, 'ts) library \<Rightarrow> path \<Rightarrow> path option \<Rightarrow> 'f run_state \<Rightarrow> path \<times> string list \<Rightarrow> 'f run_state" where
  "process_entry lib data_dir output_dir st entry =
     (case st of (w, processed_count, error_count) \<Rightarrow>
      case entry of (file_path, anomaly_timestamps) \<Rightarrow>
       (let full_csv_path = path_join lib data_dir file_path
        in if \<not> path_exists (files w) full_csv_path then
             (print (Warning_file_not_found full_csv_path) w, processed_count, error_count + 1)
           else
             (let w1 = print (Processing file_path) w
              in case process_csv_file lib (files w1) full_csv_path anomaly_timestamps of
                   Inl e \<Rightarrow> handle_exception file_path e w1 processed_count error_count
                 | Inr df \<Rightarrow>
                     (let total_points = nrows df
                      in case get_col df ''anomaly'' of
                           Inl e \<Rightarrow> handle_exception file_path e w1 processed_count error_count
                         | Inr labels \<Rightarrow>
                             (let anomaly_points = series_sum labels;
                                  w2 = print (Normal_points (int total_points - anomaly_points))
                                         (print (Anomaly_points anomaly_points)
                                           (print (Total_points total_points) w1))
                              in save_processed lib output_dir file_path full_csv_path df w2
                                   processed_count error_count)))))"

fun process_entries ::
  "('f, 'ts) library \<Rightarrow> path \<Rightarrow> path option \<Rightarrow> 'f run_state \<Rightarrow> (path \<times> string list) list \<Rightarrow> 'f run_state" where
  "process_entries lib data_dir output_dir st [] = st"
| "process_entries lib data_dir output_dir st (entry # entries) =
     process_entries lib data_dir output_dir (process_entry lib data_dir output_dir st entry) entries"

text \<open>
  The whole run. An exception of \<^verbatim>\<open>load_labels\<close> or of the first \<^verbatim>\<open>os.makedirs\<close> is not
  caught: the result is then \<open>Inl\<close> with the world as it stood.
\<close>

definition combine_datasets_with_labels ::
  "('f, 'ts) library \<Rightarrow> path \<Rightarrow> path \<Rightarrow> path option \<Rightarrow> 'f world \<Rightarrow> (error + unit) \<times> 'f world" where
  "combine_datasets_with_labels lib data_dir labels_file output_dir w =
     (let w0 = print Loading_labels w
      in case load_labels lib (files w0) labels_file of
           Inl e \<Rightarrow> (Inl e, w0)
         | Inr labels \<Rightarrow>
             (case (case mirror_root output_dir of
                      None \<Rightarrow> (files w0, None)
                    | Some d \<Rightarrow> makedirs lib (files w0) d) of
                (fs, Some e) \<Rightarrow> (Inl e, w0\<lparr>files := fs\<rparr>)
              | (fs, None) \<Rightarrow>
                  (case process_entries lib data_dir output_dir (w0\<lparr>files := fs\<rparr>, 0, 0) labels of
                     (w1, processed_count, error_count) \<Rightarrow>
                       (Inr (),
                        print (Errors_encountered error_count)
                          (print (Successfully_processed processed_count)
                            (print Processing_complete w1))))))"

text \<open>The three paths of \<^verbatim>\<open>main\<close>, written with the separator of the source.\<close>

fun windows_path :: "string list \<Rightarrow> path" where
  "windows_path [] = []"
| "windows_path [part] = part"
| "windows_path (part # parts) = part @ [CHR 0x5C] @ windows_path parts"

definition project_root :: "string list" where
  "project_root = [''C:'', ''Users'', ''Kai'', ''Documents'', ''Time_Series_Anomaly_Detection'',
     ''Dataset_Viz_Wrong'']"

definition data_directory :: path where
  "data_directory = windows_path (project_root @ [''data''])"

definition labels_file :: path where
  "labels_file = windows_path (project_root @ [''labels'', ''combined_labels.json''])"

definition output_directory :: path where
  "output_directory = windows_path (project_root @ [''data_with_labels''])"

text \<open>\<^verbatim>\<open>main\<close>; \<open>choice\<close> is the line that \<^verbatim>\<open>input\<close> returns.\<close>

definition main :: "('f, 'ts) library \<Rightarrow> string \<Rightarrow> 'f world \<Rightarrow> (error + unit) \<times> 'f world" where
  "main lib choice w =
     (let w1 = print Blank_line (print (Labels_file labels_file)
                 (print (Data_directory data_directory) (print Banner w)))
      in if \<not> path_exists (files w1) data_directory then
           (Inr (), print (Error_data_directory_not_found data_directory) w1)
         else if \<not> path_exists (files w1) labels_file then
           (Inr (), print (Error_labels_file_not_found labels_file) w1)
         else
           (let w2 = print Choose_an_option w1
            in if choice = ''2'' then
                 combine_datasets_with_labels lib data_directory labels_file (Some output_directory)
                   (print (Creating_output_directory output_directory) w2)
               else
                 combine_datasets_with_labels lib data_directory labels_file None
                   (print Processing_files_in_place w2)))"

section \<open>A small library instance\<close>

text \<open>
  An instance of the library for running the script on concrete inputs: a file holds a
  table, a label index or neither; paths are joined with a slash; a timestamp is a
  non-empty text whose \<open>T\<close> separator is read as a blank.
\<close>

datatype demo_content =
    Csv "string dataframe"
  | Json "(path \<times> string list) list"
  | Garbage

fun prefixes_at_sep :: "string \<Rightarrow> string \<Rightarrow> string list" where
  "prefixes_at_sep acc [] = []"
| "prefixes_at_sep acc (c # cs) =
     (if c = CHR ''/'' \<and> acc \<noteq> [] then [acc] else []) @ prefixes_at_sep (acc @ [c]) cs"

definition demo_dirname :: "path \<Rightarrow> path" where
  "demo_dirname p = (case rev (prefixes_at_sep [] p) of [] \<Rightarrow> [] | q # qs \<Rightarrow> q)"

fun demo_json_load :: "demo_content \<Rightarrow> error + (path \<times> string list) list" where
  "demo_json_load (Json labels) = Inr labels"
| "demo_json_load _ = Inl JSONDecodeError"

fun demo_read_csv :: "demo_content \<Rightarrow> error + string dataframe" where
  "demo_read_csv (Csv df) = Inr df"
| "demo_read_csv _ = Inl ParserError"

fun demo_to_datetime :: "string cell \<Rightarrow> string option" where
  "demo_to_datetime (Str s) =
     (if s = [] then None else Some (map (\<lambda>c. if c = CHR ''T'' then CHR '' '' else c) s))"
| "demo_to_datetime (Num n) = None"
| "demo_to_datetime (Stamp t) = Some t"

definition demo_lib :: "(demo_content, string) library" where
  "demo_lib =
     \<lparr>path_join = (\<lambda>d p. d @ ''/'' @ p),
      path_dirname = demo_dirname,
      path_parents = prefixes_at_sep [],
      json_load = demo_json_load,
      read_csv = demo_read_csv,
      to_csv = Csv,
      to_datetime = demo_to_datetime\<rparr>"

text \<open>The table and the world of the scenario with one sensor file.\<close>

definition sensorA :: "string dataframe" where
  "sensorA =
     \<lparr>nrows = 3,
      columns = [(''timestamp'', [Str ''2024-01-01T00:00:00'', Str ''2024-01-01T00:00:05'',
                                 Str ''2024-01-01T00:00:10'']),
                 (''value'', [Str ''1.0'', Str ''9.5'', Str ''1.1''])]\<rparr>"

text \<open>The same table once labelled, with the given label column.\<close>

definition sensorA_labelled :: "string cell list \<Rightarrow> string dataframe" where
  "sensorA_labelled labels =
     \<lparr>nrows = 3,
      columns = [(''timestamp'', [Stamp ''2024-01-01 00:00:00'', Stamp ''2024-01-01 00:00:05'',
                                 Stamp ''2024-01-01 00:00:10'']),
                 (''value'', [Str ''1.0'', Str ''9.5'', Str ''1.1'']),
                 (''anomaly'', labels)]\<rparr>"

definition sensor_world :: "demo_content world" where
  "sensor_world =
     \<lparr>files = [''data'' \<mapsto> Dir,
               ''data/sensorA.csv'' \<mapsto> File (Csv sensorA),
               ''labels.json'' \<mapsto> File (Json [(''sensorA.csv'', [''2024-01-01T00:00:05''])])],
      stdout = []\<rparr>"

text \<open>
  A world with four entries in the label index: a file that does not exist, a table with
  no \<open>timestamp\<close> column, a table with an empty timestamp, and the sensor file.
\<close>

definition mixed_index :: "(path \<times> string list) list" where
  "mixed_index =
     [(''missing.csv'', [''2024-01-01T00:00:05'']),
      (''no_timestamp.csv'', []),
      (''bad_timestamp.csv'', [''2024-01-01T00:00:05'']),
      (''sensorA.csv'', [''2024-01-01T00:00:05''])]"

definition no_timestamp :: "string dataframe" where
  "no_timestamp = \<lparr>nrows = 1, columns = [(''value'', [Str ''7''])]\<rparr>"

definition bad_timestamp :: "string dataframe" where
  "bad_timestamp =
     \<lparr>nrows = 2, columns = [(''timestamp'', [Str ''2024-01-01T00:00:05'', Str []])]\<rparr>"

definition mixed_world :: "demo_content world" where
  "mixed_world =
     \<lparr>files = [''data'' \<mapsto> Dir,
               ''data/sensorA.csv'' \<mapsto> File (Csv sensorA),
               ''data/no_timestamp.csv'' \<mapsto> File (Csv no_timestamp),
               ''data/bad_timestamp.csv'' \<mapsto> File (Csv bad_timestamp),
               ''labels.json'' \<mapsto> File (Json mixed_index)],
      stdout = []\<rparr>"

text \<open>
  A table that already has a column named \<open>anomaly\<close>, before its last column, and the
  table the script makes of it.
\<close>

definition relabel_in :: "string dataframe" where
  "relabel_in =
     \<lparr>nrows = 1,
      columns = [(''timestamp'', [Str ''2024-01-01T00:00:05'']),
                 (''anomaly'', [Str ''yes'']),
                 (''value'', [Str ''1.5''])]\<rparr>"

definition relabel_out :: "string dataframe" where
  "relabel_out =
     \<lparr>nrows = 1,
      columns = [(''timestamp'', [Stamp ''2024-01-01 00:00:05'']),
                 (''anomaly'', [Num 0]),
                 (''value'', [Str ''1.5''])]\<rparr>"

definition relabel_world :: "demo_content world" where
  "relabel_world =
     \<lparr>files = [''data'' \<mapsto> Dir,
               ''data/relabel.csv'' \<mapsto> File (Csv relabel_in),
               ''labels.json'' \<mapsto> File (Json [(''relabel.csv'', [])])],
      stdout = []\<rparr>"

text \<open>A world that holds the data directory and the label file that \<^verbatim>\<open>main\<close> names.\<close>

definition windows_world :: "demo_content world" where
  "windows_world =
     \<lparr>files = [data_directory \<mapsto> Dir, labels_file \<mapsto> File (Json [])],
      stdout = []\<rparr>"

section \<open>Notions used in the statements\<close>

text \<open>The label of a row whose parsed timestamp is \<open>t\<close>: 1 when \<open>t\<close> is one of the anomaly times.\<close>

definition label_of :: "'ts list \<Rightarrow> 'ts \<Rightarrow> 'ts cell" where
  "label_of anomaly_times t = (if t \<in> set anomaly_times then Num 1 else Num 0)"

text \<open>
  The path an entry is saved to: under the mirror root when there is one, else the data
  file itself.
\<close>

definition destination :: "('f, 'ts) library \<Rightarrow> path \<Rightarrow> path option \<Rightarrow> path \<Rightarrow> path" where
  "destination lib data_dir output_dir file_path =
     (case mirror_root output_dir of
        None \<Rightarrow> path_join lib data_dir file_path
      | Some d \<Rightarrow> path_join lib d file_path)"

text \<open>
  One file system extends another when every directory of the first is a directory of the
  second and every file of the first is a file of the second, with any content.
\<close>

definition extends :: "'f filesystem \<Rightarrow> 'f filesystem \<Rightarrow> bool" where
  "extends s t \<longleftrightarrow>
     (\<forall>q. (s q = Some Dir \<longrightarrow> t q = Some Dir) \<and>
          (\<forall>c. s q = Some (File c) \<longrightarrow> (\<exists>c'. t q = Some (File c'))))"

text \<open>The file system after one iteration of the loop, and after the whole loop.\<close>

definition entry_files ::
  "('f, 'ts) library \<Rightarrow> path \<Rightarrow> path option \<Rightarrow> 'f filesystem \<Rightarrow> path \<times> string list \<Rightarrow> 'f filesystem" where
  "entry_files lib data_dir output_dir fs entry =
     files (fst (process_entry lib data_dir output_dir (\<lparr>files = fs, stdout = []\<rparr>, 0, 0) entry))"

definition entries_files ::
  "('f, 'ts) library \<Rightarrow> path \<Rightarrow> path option \<Rightarrow> 'f filesystem \<Rightarrow> (path \<times> string list) list \<Rightarrow> 'f filesystem" where
  "entries_files lib data_dir output_dir fs entries =
     files (fst (process_entries lib data_dir output_dir (\<lparr>files = fs, stdout = []\<rparr>, 0, 0) entries))"

text \<open>
  The paths that \<^verbatim>\<open>os.makedirs\<close> may create for a directory, and the paths that saving the
  entry \<open>k\<close> under the mirror root \<open>d\<close> may create or write.
\<close>

definition chain :: "('f, 'ts) library \<Rightarrow> path \<Rightarrow> path list" where
  "chain lib p = path_parents lib p @ [p]"

definition touched :: "('f, 'ts) library \<Rightarrow> path \<Rightarrow> path \<Rightarrow> path list" where
  "touched lib d k = path_join lib d k # chain lib (path_dirname lib (path_join lib d k))"

text \<open>
  The mirrored tree is separate from the inputs: the entries are saved to distinct paths,
  and neither the label file nor a data file of the index is a path that the run may
  create or write.
\<close>

definition separate ::
  "('f, 'ts) library \<Rightarrow> path \<Rightarrow> path \<Rightarrow> path \<Rightarrow> (path \<times> string list) list \<Rightarrow> bool" where
  "separate lib data_dir d labels_path labels \<longleftrightarrow>
     distinct (map (\<lambda>entry. path_join lib d (fst entry)) labels) \<and>
     (\<forall>q \<in> set (labels_path # map (\<lambda>entry. path_join lib data_dir (fst entry)) labels).
        q \<notin> set (chain lib d) \<and>
        (\<forall>entry \<in> set labels. q \<notin> set (touched lib d (fst entry))))"

section \<open>Tables\<close>

lemma map_of_assign: "map_of (assign name v cs) = (map_of cs)(name \<mapsto> v)"
  by (induction cs) (auto simp: fun_eq_iff)

lemma names_assign:
  "map fst (assign name v cs) =
     (if name \<in> fst ` set cs then map fst cs else map fst cs @ [name])"
  by (induction cs) (auto split: if_splits)

lemma assign_absent: "name \<notin> fst ` set cs \<Longrightarrow> assign name v cs = cs @ [(name, v)]"
  by (induction cs) auto

lemma set_assign_subset: "set (assign name v cs) \<subseteq> insert (name, v) (set cs)"
  by (induction cs) (auto split: if_splits)

lemma get_col_set_col:
  "get_col (set_col df name vals) m = (if m = name then Inr vals else get_col df m)"
  by (simp add: get_col_def set_col_def map_of_assign)

lemma nrows_set_col: "nrows (set_col df name vals) = nrows df"
  by (simp add: set_col_def)

lemma get_col_length: "wf_df df \<Longrightarrow> get_col df name = Inr c \<Longrightarrow> length c = nrows df"
  by (auto simp: wf_df_def get_col_def list_all_iff split: option.splits dest: map_of_SomeD)

lemma wf_set_col: "wf_df df \<Longrightarrow> length vals = nrows df \<Longrightarrow> wf_df (set_col df name vals)"
proof -
  assume wf: "wf_df df" and len: "length vals = nrows df"
  have d: "distinct (map fst (assign name vals (columns df)))"
    using wf by (auto simp: names_assign wf_df_def)
  have "\<forall>c \<in> set (assign name vals (columns df)). length (snd c) = nrows df"
    using wf len set_assign_subset [of name vals "columns df"]
    by (auto simp: wf_df_def list_all_iff)
  with d show ?thesis by (simp add: wf_df_def set_col_def list_all_iff)
qed

lemma to_datetime_all_length: "to_datetime_all lib cs = Inr ts \<Longrightarrow> length ts = length cs"
  by (induction cs arbitrary: ts) (auto split: option.splits sum.splits)

lemma to_datetime_all_nth:
  "to_datetime_all lib cs = Inr ts \<Longrightarrow> i < length cs \<Longrightarrow> to_datetime lib (cs ! i) = Some (ts ! i)"
proof (induction cs arbitrary: ts i)
  case Nil
  then show ?case by simp
next
  case (Cons c cs)
  then show ?case by (cases i) (auto split: option.splits sum.splits)
qed

lemma to_datetime_all_set:
  "to_datetime_all lib cs = Inr ts \<Longrightarrow> set ts = {t. \<exists>c \<in> set cs. to_datetime lib c = Some t}"
  by (induction cs arbitrary: ts) (auto split: option.splits sum.splits)

lemma zip_isin_replicate:
  "map (\<lambda>(m, c). if m then Num 1 else c) (zip (isin (map Stamp parsed) anomaly_times) (replicate (length parsed) (Num 0)))
   = map (label_of anomaly_times) parsed"
  by (induction parsed) (auto simp: isin_def label_of_def)

lemma assign_twice: "assign name b (assign name a cs) = assign name b cs"
  by (induction cs) auto

lemma set_col_twice: "set_col (set_col df name a) name b = set_col df name b"
  by (simp add: set_col_def assign_twice)

lemma add_anomaly_column_result:
  assumes "add_anomaly_column lib df ats = Inr df'" and "wf_df df"
  shows "\<exists>raw parsed anomaly_times.
           get_col df ''timestamp'' = Inr raw \<and>
           to_datetime_all lib raw = Inr parsed \<and>
           to_datetime_all lib (map Str ats) = Inr anomaly_times \<and>
           df' = set_col (set_col df ''timestamp'' (map Stamp parsed)) ''anomaly''
                   (map (label_of anomaly_times) parsed)"
proof -
  from assms(1) obtain raw where raw: "get_col df ''timestamp'' = Inr raw"
    by (auto simp: add_anomaly_column_def split: sum.splits)
  from assms(1) raw obtain parsed where parsed: "to_datetime_all lib raw = Inr parsed"
    by (auto simp: add_anomaly_column_def split: sum.splits)
  have len: "length parsed = nrows df"
    using to_datetime_all_length [OF parsed] get_col_length [OF assms(2) raw] by simp
  define df1 where "df1 = set_col df ''timestamp'' (map Stamp parsed)"
  define df2 where "df2 = set_col df1 ''anomaly'' (replicate (nrows df1) (Num 0))"
  have n1: "nrows df1 = nrows df"
    by (simp add: df1_def nrows_set_col)
  have body: "(if ats \<noteq> [] then
                 (case to_datetime_all lib (map Str ats) of
                    Inl e \<Rightarrow> Inl e
                  | Inr anomaly_times \<Rightarrow>
                      (case get_col df2 ''timestamp'' of
                         Inl e \<Rightarrow> Inl e
                       | Inr col \<Rightarrow> loc_assign df2 (isin col anomaly_times) ''anomaly'' (Num 1)))
               else Inr df2) = Inr df'"
    using assms(1) raw parsed unfolding df1_def df2_def add_anomaly_column_def Let_def by simp
  show ?thesis
  proof (cases "ats = []")
    case True
    have "map (label_of []) parsed = replicate (length parsed) (Num 0)"
      by (induction parsed) (simp_all add: label_of_def)
    then have "df2 = set_col df1 ''anomaly'' (map (label_of []) parsed)"
      using len n1 by (simp add: df2_def)
    with True body raw parsed show ?thesis
      by (simp add: df1_def)
  next
    case False
    with body obtain anomaly_times
      where at: "to_datetime_all lib (map Str ats) = Inr anomaly_times"
      by (auto split: sum.splits)
    have ts: "get_col df2 ''timestamp'' = Inr (map Stamp parsed)"
      by (simp add: df2_def df1_def get_col_set_col)
    have an: "get_col df2 ''anomaly'' = Inr (replicate (length parsed) (Num 0))"
      using len n1 by (simp add: df2_def get_col_set_col)
    have "loc_assign df2 (isin (map Stamp parsed) anomaly_times) ''anomaly'' (Num 1)
            = Inr (set_col df1 ''anomaly'' (map (label_of anomaly_times) parsed))"
      using an zip_isin_replicate [of parsed anomaly_times]
      by (simp add: loc_assign_def df2_def set_col_twice)
    with False body at ts have "df' = set_col df1 ''anomaly'' (map (label_of anomaly_times) parsed)"
      by simp
    with raw parsed at show ?thesis
      by (simp add: df1_def)
  qed
qed

section \<open>One file\<close>

lemma files_print [simp]: "files (print m w) = files w"
  by (simp add: print_def)

lemma stdout_print [simp]: "stdout (print m w) = stdout w @ [m]"
  by (simp add: print_def)

lemma process_csv_file_Inr:
  "process_csv_file lib fs p ats = Inr df' \<longleftrightarrow>
     (\<exists>c df. fs p = Some (File c) \<and> read_csv lib c = Inr df \<and> add_anomaly_column lib df ats = Inr df')"
  by (auto simp: process_csv_file_def open_read_def split: sum.splits option.splits node.splits)

lemma process_entry_success:
  assumes "process_csv_file lib (files w) (path_join lib data_dir k) ats = Inr df'"
    and "get_col df' ''anomaly'' = Inr labels"
  shows "process_entry lib data_dir output_dir (w, p, e) (k, ats) =
           save_processed lib output_dir k (path_join lib data_dir k) df'
             (print (Normal_points (int (nrows df') - series_sum labels))
               (print (Anomaly_points (series_sum labels))
                 (print (Total_points (nrows df')) (print (Processing k) w)))) p e"
proof -
  from assms(1) have "path_exists (files w) (path_join lib data_dir k)"
    by (auto simp: process_csv_file_Inr path_exists_def)
  with assms show ?thesis
    by (simp add: process_entry_def Let_def)
qed

lemma series_sum_labels:
  "series_sum (map (label_of anomaly_times) parsed) =
     int (length (filter (\<lambda>t. t \<in> set anomaly_times) parsed))"
  by (induction parsed) (simp_all add: series_sum_def label_of_def)

lemma process_csv_file_labels:
  assumes "fs p = Some (File c)" and "read_csv lib c = Inr df" and "wf_df df"
    and "process_csv_file lib fs p ats = Inr df'"
  shows "\<exists>raw parsed anomaly_times.
           get_col df ''timestamp'' = Inr raw \<and>
           to_datetime_all lib raw = Inr parsed \<and>
           to_datetime_all lib (map Str ats) = Inr anomaly_times \<and>
           length parsed = nrows df \<and> nrows df' = nrows df \<and>
           get_col df' ''anomaly'' = Inr (map (label_of anomaly_times) parsed)"
proof -
  from assms have "add_anomaly_column lib df ats = Inr df'"
    by (simp add: process_csv_file_def open_read_def)
  from add_anomaly_column_result [OF this assms(3)] obtain raw parsed anomaly_times where
    r: "get_col df ''timestamp'' = Inr raw" "to_datetime_all lib raw = Inr parsed"
       "to_datetime_all lib (map Str ats) = Inr anomaly_times"
       "df' = set_col (set_col df ''timestamp'' (map Stamp parsed)) ''anomaly''
                   (map (label_of anomaly_times) parsed)"
    by blast
  have "length parsed = nrows df"
    using to_datetime_all_length [OF r(2)] get_col_length [OF assms(3) r(1)] by simp
  with r show ?thesis
    by (simp add: get_col_set_col nrows_set_col)
qed

lemma count_anomalous:
  "series_sum (map (label_of anomaly_times) parsed) =
     int (length (filter (\<lambda>l. l = Num 1) (map (label_of anomaly_times) parsed)))"
  by (induction parsed) (simp_all add: series_sum_def label_of_def)

lemma count_normal:
  "int (length parsed) - series_sum (map (label_of anomaly_times) parsed) =
     int (length (filter (\<lambda>l. l = Num 0) (map (label_of anomaly_times) parsed)))"
  by (induction parsed) (simp_all add: series_sum_def label_of_def)

lemma scenario_stdout:
  "stdout (snd (combine_datasets_with_labels demo_lib ''data'' ''labels.json'' None sensor_world)) =
     [Loading_labels, Processing ''sensorA.csv'', Total_points 3, Anomaly_points 1,
      Normal_points 2, Updated_original_file, Processing_complete, Successfully_processed 1,
      Errors_encountered 0]"
  by code_simp

lemma scenario_file:
  "files (snd (combine_datasets_with_labels demo_lib ''data'' ''labels.json'' None sensor_world))
     ''data/sensorA.csv'' = Some (File (Csv (sensorA_labelled [Num 0, Num 1, Num 0])))"
  by code_simp

lemma labelled_entry:
  assumes "files w (path_join lib data_dir k) = Some (File c)"
    and "read_csv lib c = Inr df" and "wf_df df"
    and "process_csv_file lib (files w) (path_join lib data_dir k) ats = Inr df'"
  shows "\<exists>raw parsed anomaly_times labels w'.
     get_col df ''timestamp'' = Inr raw \<and> length raw = nrows df \<and>
     to_datetime_all lib raw = Inr parsed \<and>
     set anomaly_times = {t. \<exists>s \<in> set ats. to_datetime lib (Str s) = Some t} \<and>
     get_col df' ''anomaly'' = Inr labels \<and> length labels = nrows df \<and> nrows df' = nrows df \<and>
     (\<forall>i < nrows df. to_datetime lib (raw ! i) = Some (parsed ! i) \<and>
         labels ! i \<in> {Num 0, Num 1} \<and>
         (labels ! i = Num 1 \<longleftrightarrow> parsed ! i \<in> set anomaly_times)) \<and>
     process_entry lib data_dir output_dir (w, p, e) (k, ats) =
       save_processed lib output_dir k (path_join lib data_dir k) df' w' p e \<and>
     files w' = files w \<and>
     stdout w' = stdout w @ [Processing k, Total_points (nrows df),
        Anomaly_points (int (length (filter (\<lambda>l. l = Num 1) labels))),
        Normal_points (int (length (filter (\<lambda>l. l = Num 0) labels)))]"
proof -
  from process_csv_file_labels [OF assms] obtain raw parsed anomaly_times where
    r: "get_col df ''timestamp'' = Inr raw" "to_datetime_all lib raw = Inr parsed"
       "to_datetime_all lib (map Str ats) = Inr anomaly_times"
       "length parsed = nrows df" "nrows df' = nrows df"
       "get_col df' ''anomaly'' = Inr (map (label_of anomaly_times) parsed)"
    by blast
  define labels where "labels = map (label_of anomaly_times) parsed"
  define w' where "w' = print (Normal_points (int (nrows df') - series_sum labels))
               (print (Anomaly_points (series_sum labels))
                 (print (Total_points (nrows df')) (print (Processing k) w)))"
  have len: "length raw = nrows df"
    using get_col_length [OF assms(3) r(1)] .
  have at: "set anomaly_times = {t. \<exists>s \<in> set ats. to_datetime lib (Str s) = Some t}"
    using to_datetime_all_set [OF r(3)] by auto
  have rows: "\<forall>i < nrows df. to_datetime lib (raw ! i) = Some (parsed ! i) \<and>
         labels ! i \<in> {Num 0, Num 1} \<and>
         (labels ! i = Num 1 \<longleftrightarrow> parsed ! i \<in> set anomaly_times)"
    using to_datetime_all_nth [OF r(2)] len r(4) by (simp add: labels_def label_of_def)
  have step: "process_entry lib data_dir output_dir (w, p, e) (k, ats) =
       save_processed lib output_dir k (path_join lib data_dir k) df' w' p e"
    using process_entry_success [OF assms(4)] r(6) by (simp add: w'_def labels_def)
  have out: "stdout w' = stdout w @ [Processing k, Total_points (nrows df),
        Anomaly_points (int (length (filter (\<lambda>l. l = Num 1) labels))),
        Normal_points (int (length (filter (\<lambda>l. l = Num 0) labels)))]"
    using count_anomalous [of anomaly_times parsed] count_normal [of parsed anomaly_times] r(4,5)
    by (simp add: w'_def labels_def)
  have lab: "get_col df' ''anomaly'' = Inr labels" "length labels = nrows df"
    using r(4,6) by (simp_all add: labels_def)
  have fw: "files w' = files w"
    by (simp add: w'_def)
  show ?thesis
    apply (rule exI [of _ raw], rule exI [of _ parsed], rule exI [of _ anomaly_times])
    apply (rule exI [of _ labels], rule exI [of _ w'])
    using r(1,2,5) len at lab rows step fw out by - (intro conjI; assumption)
qed

lemma add_anomaly_column_nrows:
  "add_anomaly_column lib df ats = Inr df' \<Longrightarrow> nrows df' = nrows df"
  unfolding add_anomaly_column_def Let_def loc_assign_def
  by (auto simp: nrows_set_col split: sum.splits if_splits)

lemma add_anomaly_column_wf:
  assumes "add_anomaly_column lib df ats = Inr df'" and "wf_df df"
  shows "wf_df df'"
proof -
  from add_anomaly_column_result [OF assms] obtain raw parsed anomaly_times where
    r: "get_col df ''timestamp'' = Inr raw" "to_datetime_all lib raw = Inr parsed"
       "df' = set_col (set_col df ''timestamp'' (map Stamp parsed)) ''anomaly''
                   (map (label_of anomaly_times) parsed)"
    by blast
  have len: "length parsed = nrows df"
    using to_datetime_all_length [OF r(2)] get_col_length [OF assms(2) r(1)] by simp
  have "wf_df (set_col df ''timestamp'' (map Stamp parsed))"
    using assms(2) len by (simp add: wf_set_col)
  then show ?thesis
    unfolding r(3) using len by (simp add: wf_set_col nrows_set_col)
qed

lemma wf_df_columns: "wf_df df \<Longrightarrow> col \<in> snd ` set (columns df) \<Longrightarrow> length col = nrows df"
  by (auto simp: wf_df_def list_all_iff)

lemma labels_of_empty:
  assumes "add_anomaly_column lib df [] = Inr df'"
  shows "get_col df' ''anomaly'' = Inr (replicate (nrows df') (Num 0))"
  using assms unfolding add_anomaly_column_def Let_def
  by (auto simp: nrows_set_col get_col_set_col split: sum.splits)

lemma series_sum_zeros: "series_sum (replicate n (Num 0)) = 0"
  by (induction n) (simp_all add: series_sum_def)

lemma sensor_run:
  "process_csv_file demo_lib (files sensor_world) ''data/sensorA.csv'' [''2024-01-01T00:00:05'']
     = Inr (sensorA_labelled [Num 0, Num 1, Num 0])"
  by code_simp

lemma sensor_run_empty:
  "process_csv_file demo_lib (files sensor_world) ''data/sensorA.csv'' []
     = Inr (sensorA_labelled [Num 0, Num 0, Num 0])"
  by code_simp

lemma wf_sensorA: "wf_df sensorA"
  by code_simp

section \<open>The label column\<close>

text \<open>
  Claim C1. When a data file is read as a well-formed table and labelled, the label column
  has one value per row, each 0 or 1, and the label of a row is 1 exactly when the parsed
  timestamp of the row is equal to one of the parsed anomaly timestamps given for the file.
  The counts printed for the file are the number of rows, the number of rows labelled 1 and
  the number of rows labelled 0. For the index with \<open>sensorA.csv\<close> and the one anomaly at
  \<open>00:00:05\<close>, the labels are 0, 1, 0 and the counts 3, 1 and 2.
\<close>

theorem label_one_iff_timestamp_matches:
  assumes "files w (path_join lib data_dir k) = Some (File c)"
    and "read_csv lib c = Inr df" and "wf_df df"
    and "process_csv_file lib (files w) (path_join lib data_dir k) ats = Inr df'"
  shows "(\<exists>raw parsed anomaly_times labels w'.
     get_col df ''timestamp'' = Inr raw \<and> length raw = nrows df \<and>
     to_datetime_all lib raw = Inr parsed \<and>
     set anomaly_times = {t. \<exists>s \<in> set ats. to_datetime lib (Str s) = Some t} \<and>
     get_col df' ''anomaly'' = Inr labels \<and> length labels = nrows df \<and> nrows df' = nrows df \<and>
     (\<forall>i < nrows df. to_datetime lib (raw ! i) = Some (parsed ! i) \<and>
         labels ! i \<in> {Num 0, Num 1} \<and>
         (labels ! i = Num 1 \<longleftrightarrow> parsed ! i \<in> set anomaly_times)) \<and>
     process_entry lib data_dir output_dir (w, p, e) (k, ats) =
       save_processed lib output_dir k (path_join lib data_dir k) df' w' p e \<and>
     files w' = files w \<and>
     stdout w' = stdout w @ [Processing k, Total_points (nrows df),
        Anomaly_points (int (length (filter (\<lambda>l. l = Num 1) labels))),
        Normal_points (int (length (filter (\<lambda>l. l = Num 0) labels)))]) \<and>
   stdout (snd (combine_datasets_with_labels demo_lib ''data'' ''labels.json'' None sensor_world)) =
     [Loading_labels, Processing ''sensorA.csv'', Total_points 3, Anomaly_points 1,
      Normal_points 2, Updated_original_file, Processing_complete, Successfully_processed 1,
      Errors_encountered 0] \<and>
   files (snd (combine_datasets_with_labels demo_lib ''data'' ''labels.json'' None sensor_world))
     ''data/sensorA.csv'' = Some (File (Csv (sensorA_labelled [Num 0, Num 1, Num 0])))"
  using labelled_entry [OF assms, where output_dir = output_dir and p = p and e = e]
    scenario_stdout scenario_file
  by - (intro conjI; assumption)

theorem label_one_iff_timestamp_matches_witness:
  "\<exists>raw parsed anomaly_times labels.
     get_col sensorA ''timestamp'' = Inr raw \<and>
     get_col (sensorA_labelled [Num 0, Num 1, Num 0]) ''anomaly'' = Inr labels \<and>
     length labels = 3 \<and>
     to_datetime demo_lib (raw ! 1) = Some (parsed ! 1) \<and>
     (labels ! 1 = Num 1) = (parsed ! 1 \<in> set anomaly_times) \<and>
     (labels ! 2 = Num 1) = (parsed ! 2 \<in> set anomaly_times)"
proof -
  have j: "path_join demo_lib ''data'' ''sensorA.csv'' = ''data/sensorA.csv''"
    by (simp add: demo_lib_def)
  have h1: "files sensor_world (path_join demo_lib ''data'' ''sensorA.csv'') = Some (File (Csv sensorA))"
    unfolding j by (simp add: sensor_world_def)
  have h2: "read_csv demo_lib (Csv sensorA) = Inr sensorA"
    by (simp add: demo_lib_def)
  have h4: "process_csv_file demo_lib (files sensor_world) (path_join demo_lib ''data'' ''sensorA.csv'')
              [''2024-01-01T00:00:05''] = Inr (sensorA_labelled [Num 0, Num 1, Num 0])"
    unfolding j by (rule sensor_run)
  have n: "nrows sensorA = 3"
    by (simp add: sensorA_def)
  from label_one_iff_timestamp_matches [OF h1 h2 wf_sensorA h4, where output_dir = None and p = 0 and e = 0]
  obtain raw parsed anomaly_times labels where
    r: "get_col sensorA ''timestamp'' = Inr raw"
       "get_col (sensorA_labelled [Num 0, Num 1, Num 0]) ''anomaly'' = Inr labels"
       "length labels = 3"
       "\<forall>i < 3. to_datetime demo_lib (raw ! i) = Some (parsed ! i) \<and>
         labels ! i \<in> {Num 0, Num 1} \<and>
         (labels ! i = Num 1 \<longleftrightarrow> parsed ! i \<in> set anomaly_times)"
    unfolding n by blast
  from r(4) have "to_datetime demo_lib (raw ! 1) = Some (parsed ! 1)"
    "(labels ! 1 = Num 1) = (parsed ! 1 \<in> set anomaly_times)"
    "(labels ! 2 = Num 1) = (parsed ! 2 \<in> set anomaly_times)"
    by simp_all
  with r(1,2,3) show ?thesis
    by (intro exI [of _ raw] exI [of _ parsed] exI [of _ anomaly_times] exI [of _ labels] conjI)
qed

text \<open>
  Claim C2. A processed file gives a table with the number of rows of the table that was
  read; when that table is well formed, so is the result, and each of its columns, the
  label column among them, has exactly that many cells.
\<close>

theorem row_count_preserved:
  assumes "process_csv_file lib fs csv_path ats = Inr df'"
  shows "\<exists>c df. fs csv_path = Some (File c) \<and> read_csv lib c = Inr df \<and>
           nrows df' = nrows df \<and>
           (wf_df df \<longrightarrow> wf_df df' \<and> (\<forall>col \<in> snd ` set (columns df'). length col = nrows df))"
proof -
  from assms obtain c df where
    r: "fs csv_path = Some (File c)" "read_csv lib c = Inr df"
       "add_anomaly_column lib df ats = Inr df'"
    by (auto simp: process_csv_file_Inr)
  have n: "nrows df' = nrows df"
    using add_anomaly_column_nrows [OF r(3)] .
  have "wf_df df \<longrightarrow> wf_df df' \<and> (\<forall>col \<in> snd ` set (columns df'). length col = nrows df)"
    using add_anomaly_column_wf [OF r(3)] wf_df_columns [of df'] n by auto
  with r(1,2) n show ?thesis by blast
qed

theorem row_count_preserved_witness:
  "nrows (sensorA_labelled [Num 0, Num 1, Num 0]) = nrows sensorA \<and>
   wf_df (sensorA_labelled [Num 0, Num 1, Num 0]) \<and> nrows sensorA = 3"
proof -
  from row_count_preserved [OF sensor_run] obtain c df where
    r: "files sensor_world ''data/sensorA.csv'' = Some (File c)" "read_csv demo_lib c = Inr df"
       "nrows (sensorA_labelled [Num 0, Num 1, Num 0]) = nrows df"
       "wf_df df \<longrightarrow> wf_df (sensorA_labelled [Num 0, Num 1, Num 0]) \<and>
         (\<forall>col \<in> snd ` set (columns (sensorA_labelled [Num 0, Num 1, Num 0])).
            length col = nrows df)"
    by blast
  from r(1) have "c = Csv sensorA"
    by (simp add: sensor_world_def)
  with r(2) have "df = sensorA"
    by (simp add: demo_lib_def)
  with r(3,4) wf_sensorA show ?thesis
    by (simp add: sensorA_def)
qed

text \<open>
  Claim C3. With an empty list of anomaly timestamps every row is labelled 0, and the
  anomaly count printed for the file is 0.
\<close>

theorem empty_anomaly_list_labels_zero:
  assumes "process_csv_file lib (files w) (path_join lib data_dir k) [] = Inr df'"
  shows "get_col df' ''anomaly'' = Inr (replicate (nrows df') (Num 0)) \<and>
         (\<exists>w'. process_entry lib data_dir output_dir (w, p, e) (k, []) =
                  save_processed lib output_dir k (path_join lib data_dir k) df' w' p e \<and>
               files w' = files w \<and>
               stdout w' = stdout w @ [Processing k, Total_points (nrows df'),
                 Anomaly_points 0, Normal_points (int (nrows df'))])"
proof -
  from assms obtain c df where
    r: "add_anomaly_column lib df [] = Inr df'"
    by (auto simp: process_csv_file_Inr)
  have lab: "get_col df' ''anomaly'' = Inr (replicate (nrows df') (Num 0))"
    using labels_of_empty [OF r] .
  from process_entry_success [OF assms lab, where output_dir = output_dir and p = p and e = e] lab
  show ?thesis
    by (auto simp: series_sum_zeros)
qed

theorem empty_anomaly_list_labels_zero_witness:
  "get_col (sensorA_labelled [Num 0, Num 0, Num 0]) ''anomaly'' = Inr [Num 0, Num 0, Num 0] \<and>
   (\<exists>w'. process_entry demo_lib ''data'' None (sensor_world, 0, 0) (''sensorA.csv'', []) =
            save_processed demo_lib None ''sensorA.csv'' ''data/sensorA.csv''
              (sensorA_labelled [Num 0, Num 0, Num 0]) w' 0 0 \<and>
          stdout w' = [Processing ''sensorA.csv'', Total_points 3, Anomaly_points 0,
                       Normal_points 3])"
proof -
  have j: "path_join demo_lib ''data'' ''sensorA.csv'' = ''data/sensorA.csv''"
    by (simp add: demo_lib_def)
  have h: "process_csv_file demo_lib (files sensor_world) (path_join demo_lib ''data'' ''sensorA.csv'') []
             = Inr (sensorA_labelled [Num 0, Num 0, Num 0])"
    unfolding j by (rule sensor_run_empty)
  have n: "nrows (sensorA_labelled [Num 0, Num 0, Num 0]) = 3"
    by (simp add: sensorA_labelled_def)
  have s: "stdout sensor_world = []"
    by (simp add: sensor_world_def)
  from empty_anomaly_list_labels_zero [OF h, of None 0 0] show ?thesis
    unfolding j n s by (auto simp: numeral_3_eq_3)
qed

section \<open>The run\<close>

lemma load_labels_Inl:
  "load_labels lib fs lf = Inl err \<longleftrightarrow>
     (fs lf = None \<and> err = FileNotFoundError lf) \<or>
     (fs lf = Some Dir \<and> err = IsADirectoryError lf) \<or>
     (\<exists>c. fs lf = Some (File c) \<and> json_load lib c = Inl err)"
  by (auto simp: load_labels_def open_read_def split: option.splits node.splits sum.splits)

lemma to_datetime_all_Inl:
  "to_datetime_all lib cs = Inl err \<longleftrightarrow>
     (\<exists>cell \<in> set cs. to_datetime lib cell = None) \<and> err = ValueError"
  by (induction cs) (auto split: option.splits sum.splits)

lemma get_col_Inl:
  "get_col df name = Inl err \<longleftrightarrow> name \<notin> fst ` set (columns df) \<and> err = KeyError name"
  by (auto simp: get_col_def map_of_eq_None_iff split: option.splits dest: map_of_SomeD
      intro: rev_image_eqI)

lemma add_anomaly_column_bad_timestamps:
  assumes "name_missing \<or> cell_bad"
    and "name_missing \<longleftrightarrow> ''timestamp'' \<notin> fst ` set (columns df)"
    and "cell_bad \<longleftrightarrow> (\<exists>raw. get_col df ''timestamp'' = Inr raw \<and>
                          (\<exists>cell \<in> set raw. to_datetime lib cell = None))"
  shows "add_anomaly_column lib df ats =
           Inl (if name_missing then KeyError ''timestamp'' else ValueError)"
proof (cases name_missing)
  case True
  then have "get_col df ''timestamp'' = Inl (KeyError ''timestamp'')"
    using assms(2) by (simp add: get_col_Inl)
  with True show ?thesis
    by (simp add: add_anomaly_column_def)
next
  case False
  with assms obtain raw where
    r: "get_col df ''timestamp'' = Inr raw" "\<exists>cell \<in> set raw. to_datetime lib cell = None"
    by auto
  then have "to_datetime_all lib raw = Inl ValueError"
    by (simp add: to_datetime_all_Inl)
  with False r(1) show ?thesis
    by (simp add: add_anomaly_column_def)
qed

lemma save_processed_counts:
  "save_processed lib output_dir k full df w p e = (w', p', e') \<Longrightarrow>
     (p' = p + 1 \<and> e' = e) \<or> (p' = p \<and> e' = e + 1)"
  by (auto simp: save_processed_def handle_exception_def Let_def
      split: option.splits prod.splits sum.splits)

lemma process_entry_counts:
  "process_entry lib data_dir output_dir (w, p, e) entry = (w', p', e') \<Longrightarrow>
     (p' = p + 1 \<and> e' = e) \<or> (p' = p \<and> e' = e + 1)"
  by (cases entry)
     (auto simp: process_entry_def handle_exception_def Let_def
       split: if_splits sum.splits dest: save_processed_counts)

lemma process_entries_counts:
  "process_entries lib data_dir output_dir (w, p, e) labels = (w', p', e') \<Longrightarrow>
     p' + e' = p + e + length labels"
proof (induction labels arbitrary: w p e)
  case Nil
  then show ?case by simp
next
  case (Cons entry labels)
  obtain w1 p1 e1 where s: "process_entry lib data_dir output_dir (w, p, e) entry = (w1, p1, e1)"
    by (cases "process_entry lib data_dir output_dir (w, p, e) entry") auto
  from process_entry_counts [OF s] have "p1 + e1 = p + e + 1"
    by auto
  moreover from Cons.prems s have "p' + e' = p1 + e1 + length labels"
    by (intro Cons.IH [of w1 p1 e1]) simp
  ultimately show ?case by simp
qed

lemma output_directory_not_empty: "output_directory \<noteq> []"
  by (simp add: output_directory_def project_root_def)

text \<open>
  Claim C4. \<^verbatim>\<open>load_labels\<close> fails exactly when the label file is missing, is not a
  readable file, or is rejected by the JSON parser. The run then ends with this error after
  printing that it loads the labels: no file is read or written, the file system is the one
  the run started with.
\<close>

theorem label_load_failure_aborts:
  "(load_labels lib (files w) lf = Inl err \<longleftrightarrow>
     (files w lf = None \<and> err = FileNotFoundError lf) \<or>
     (files w lf = Some Dir \<and> err = IsADirectoryError lf) \<or>
     (\<exists>c. files w lf = Some (File c) \<and> json_load lib c = Inl err)) \<and>
   (load_labels lib (files w) lf = Inl err \<longrightarrow>
     combine_datasets_with_labels lib data_dir lf output_dir w =
       (Inl err, w\<lparr>stdout := stdout w @ [Loading_labels]\<rparr>))"
proof (intro conjI impI)
  show "load_labels lib (files w) lf = Inl err \<longleftrightarrow>
     (files w lf = None \<and> err = FileNotFoundError lf) \<or>
     (files w lf = Some Dir \<and> err = IsADirectoryError lf) \<or>
     (\<exists>c. files w lf = Some (File c) \<and> json_load lib c = Inl err)"
    by (rule load_labels_Inl)
next
  assume "load_labels lib (files w) lf = Inl err"
  then show "combine_datasets_with_labels lib data_dir lf output_dir w =
       (Inl err, w\<lparr>stdout := stdout w @ [Loading_labels]\<rparr>)"
    by (simp add: combine_datasets_with_labels_def Let_def print_def)
qed

theorem label_load_failure_aborts_witness:
  "combine_datasets_with_labels demo_lib ''data'' ''nowhere.json'' (Some ''out'') sensor_world =
     (Inl (FileNotFoundError ''nowhere.json''), sensor_world\<lparr>stdout := [Loading_labels]\<rparr>) \<and>
   combine_datasets_with_labels demo_lib ''data'' ''data/sensorA.csv'' None sensor_world =
     (Inl JSONDecodeError, sensor_world\<lparr>stdout := [Loading_labels]\<rparr>)"
proof -
  have a: "files sensor_world ''nowhere.json'' = None"
    by (simp add: sensor_world_def)
  have b: "files sensor_world ''data/sensorA.csv'' = Some (File (Csv sensorA))"
    by (simp add: sensor_world_def)
  have c: "json_load demo_lib (Csv sensorA) = Inl JSONDecodeError"
    by (simp add: demo_lib_def)
  have s: "stdout sensor_world = []"
    by (simp add: sensor_world_def)
  from label_load_failure_aborts [of demo_lib sensor_world "''nowhere.json''"
      "FileNotFoundError ''nowhere.json''" "''data''" "Some ''out''"]
    label_load_failure_aborts [of demo_lib sensor_world "''data/sensorA.csv''"
      JSONDecodeError "''data''" None] a b c s
  show ?thesis by simp
qed

text \<open>The loop runs the iteration on every entry, in the order of the index.\<close>

lemma process_entries_foldl:
  "process_entries lib data_dir output_dir st entries =
     foldl (process_entry lib data_dir output_dir) st entries"
  by (induction entries arbitrary: st) simp_all

text \<open>
  Claim C5. When the loop reaches an entry whose resolved path does not exist, the
  iteration prints the warning, adds one to the error count and leaves the processed count
  and the file system as they were. The loop goes on: the run over the whole index is the
  iteration applied to each entry after this one, in order, from the state this iteration
  leaves, and the entry and every entry after it add one to exactly one of the counters.
\<close>

theorem missing_file_counted_and_skipped:
  assumes "foldl (process_entry lib data_dir output_dir) st0 before = (w, p, e)"
    and "\<not> path_exists (files w) (path_join lib data_dir k)"
  shows "process_entry lib data_dir output_dir (w, p, e) (k, ats) =
           (w\<lparr>stdout := stdout w @ [Warning_file_not_found (path_join lib data_dir k)]\<rparr>, p, e + 1) \<and>
         process_entries lib data_dir output_dir st0 (before @ (k, ats) # rest) =
           foldl (process_entry lib data_dir output_dir)
             (w\<lparr>stdout := stdout w @ [Warning_file_not_found (path_join lib data_dir k)]\<rparr>, p, e + 1)
             rest \<and>
         (\<exists>w' p' e'. process_entries lib data_dir output_dir st0 (before @ (k, ats) # rest) =
                        (w', p', e') \<and>
                     p' + e' = p + e + 1 + length rest)"
proof -
  define w1 where "w1 = w\<lparr>stdout := stdout w @ [Warning_file_not_found (path_join lib data_dir k)]\<rparr>"
  have step: "process_entry lib data_dir output_dir (w, p, e) (k, ats) = (w1, p, e + 1)"
    using assms(2) by (simp add: process_entry_def Let_def print_def w1_def)
  have run: "process_entries lib data_dir output_dir st0 (before @ (k, ats) # rest) =
               foldl (process_entry lib data_dir output_dir) (w1, p, e + 1) rest"
    using assms(1) step by (simp add: process_entries_foldl)
  obtain w' p' e' where
    fin: "process_entries lib data_dir output_dir (w1, p, e + 1) rest = (w', p', e')"
    by (cases "process_entries lib data_dir output_dir (w1, p, e + 1) rest") auto
  from process_entries_counts [OF fin] have "p' + e' = p + e + 1 + length rest"
    by simp
  moreover from fin run
  have "process_entries lib data_dir output_dir st0 (before @ (k, ats) # rest) = (w', p', e')"
    by (simp add: process_entries_foldl)
  ultimately show ?thesis
    using step run unfolding w1_def by blast
qed

theorem missing_file_counted_and_skipped_witness:
  "fst (snd (process_entries demo_lib ''data'' (Some ''out'') (mixed_world, 0, 0) mixed_index)) = 1 \<and>
   snd (snd (process_entries demo_lib ''data'' (Some ''out'') (mixed_world, 0, 0) mixed_index)) = 3 \<and>
   files (fst (process_entries demo_lib ''data'' (Some ''out'') (mixed_world, 0, 0) mixed_index))
     ''out/sensorA.csv'' = Some (File (Csv (sensorA_labelled [Num 0, Num 1, Num 0]))) \<and>
   stdout (fst (process_entries demo_lib ''data'' (Some ''out'') (mixed_world, 0, 0) mixed_index)) =
     [Warning_file_not_found ''data/missing.csv'',
      Processing ''no_timestamp.csv'',
      Error_processing ''no_timestamp.csv'' (KeyError ''timestamp''),
      Processing ''bad_timestamp.csv'',
      Error_processing ''bad_timestamp.csv'' ValueError,
      Processing ''sensorA.csv'', Total_points 3, Anomaly_points 1, Normal_points 2,
      Saved_to ''out/sensorA.csv'']"
proof -
  define rest where "rest = [(''no_timestamp.csv'', [] :: string list),
      (''bad_timestamp.csv'', [''2024-01-01T00:00:05'']),
      (''sensorA.csv'', [''2024-01-01T00:00:05''])]"
  define st where "st = (mixed_world\<lparr>stdout := stdout mixed_world @
      [Warning_file_not_found (path_join demo_lib ''data'' ''missing.csv'')]\<rparr>, 0 :: nat, 0 + 1 :: nat)"
  have idx: "mixed_index = [] @ (''missing.csv'', [''2024-01-01T00:00:05'']) # rest"
    by (simp add: mixed_index_def rest_def)
  have h0: "foldl (process_entry demo_lib ''data'' (Some ''out'')) (mixed_world, 0, 0) []
              = (mixed_world, 0, 0)"
    by simp
  have h: "\<not> path_exists (files mixed_world) (path_join demo_lib ''data'' ''missing.csv'')"
    by (simp add: path_exists_def mixed_world_def demo_lib_def)
  note inst = missing_file_counted_and_skipped [OF h0 h, of "[''2024-01-01T00:00:05'']" rest]
  have run: "process_entries demo_lib ''data'' (Some ''out'') (mixed_world, 0, 0) mixed_index =
               foldl (process_entry demo_lib ''data'' (Some ''out'')) st rest"
    unfolding idx st_def by (rule inst [THEN conjunct2, THEN conjunct1])
  have "fst (snd (foldl (process_entry demo_lib ''data'' (Some ''out'')) st rest)) = 1"
    unfolding st_def rest_def by code_simp
  moreover have "snd (snd (foldl (process_entry demo_lib ''data'' (Some ''out'')) st rest)) = 3"
    unfolding st_def rest_def by code_simp
  moreover have "files (fst (foldl (process_entry demo_lib ''data'' (Some ''out'')) st rest))
     ''out/sensorA.csv'' = Some (File (Csv (sensorA_labelled [Num 0, Num 1, Num 0])))"
    unfolding st_def rest_def by code_simp
  moreover have "stdout (fst (foldl (process_entry demo_lib ''data'' (Some ''out'')) st rest)) =
     [Warning_file_not_found ''data/missing.csv'',
      Processing ''no_timestamp.csv'',
      Error_processing ''no_timestamp.csv'' (KeyError ''timestamp''),
      Processing ''bad_timestamp.csv'',
      Error_processing ''bad_timestamp.csv'' ValueError,
      Processing ''sensorA.csv'', Total_points 3, Anomaly_points 1, Normal_points 2,
      Saved_to ''out/sensorA.csv'']"
    unfolding st_def rest_def by code_simp
  ultimately show ?thesis
    unfolding run by (intro conjI)
qed

text \<open>
  Claim C6. When the loop reaches a file that exists and is read as a table, if the table
  has no \<open>timestamp\<close> column or one of its timestamps does not parse, processing the file
  raises (KeyError, respectively ValueError); the handler of the loop prints the error, adds
  one to the error count, and nothing is written. The loop goes on: the run over the whole
  index is the iteration applied to each entry after this one, in order, from the state
  the handler leaves, and the entry and every entry after it add one to exactly one of
  the counters.
\<close>

theorem bad_timestamp_column_counted_and_skipped:
  assumes "foldl (process_entry lib data_dir output_dir) st0 before = (w, p, e)"
    and "files w (path_join lib data_dir k) = Some (File c)"
    and "read_csv lib c = Inr df"
    and "''timestamp'' \<notin> fst ` set (columns df) \<or>
         (\<exists>raw. get_col df ''timestamp'' = Inr raw \<and>
                (\<exists>cell \<in> set raw. to_datetime lib cell = None))"
  shows "\<exists>err. process_csv_file lib (files w) (path_join lib data_dir k) ats = Inl err \<and>
           err = (if ''timestamp'' \<notin> fst ` set (columns df) then KeyError ''timestamp''
                  else ValueError) \<and>
           process_entry lib data_dir output_dir (w, p, e) (k, ats) =
             (w\<lparr>stdout := stdout w @ [Processing k, Error_processing k err]\<rparr>, p, e + 1) \<and>
           process_entries lib data_dir output_dir st0 (before @ (k, ats) # rest) =
             foldl (process_entry lib data_dir output_dir)
               (w\<lparr>stdout := stdout w @ [Processing k, Error_processing k err]\<rparr>, p, e + 1) rest \<and>
           (\<exists>w' p' e'. process_entries lib data_dir output_dir st0 (before @ (k, ats) # rest) =
                          (w', p', e') \<and>
                       p' + e' = p + e + 1 + length rest)"
proof -
  define err where "err = (if ''timestamp'' \<notin> fst ` set (columns df) then KeyError ''timestamp''
                  else ValueError)"
  define w1 where "w1 = w\<lparr>stdout := stdout w @ [Processing k, Error_processing k err]\<rparr>"
  have "add_anomaly_column lib df ats = Inl err"
    unfolding err_def using assms(4) by (intro add_anomaly_column_bad_timestamps) auto
  with assms(2,3) have f: "process_csv_file lib (files w) (path_join lib data_dir k) ats = Inl err"
    by (simp add: process_csv_file_def open_read_def)
  have ex: "path_exists (files w) (path_join lib data_dir k)"
    using assms(2) by (simp add: path_exists_def)
  have step: "process_entry lib data_dir output_dir (w, p, e) (k, ats) = (w1, p, e + 1)"
    using f ex by (simp add: process_entry_def Let_def handle_exception_def print_def w1_def)
  have run: "process_entries lib data_dir output_dir st0 (before @ (k, ats) # rest) =
               foldl (process_entry lib data_dir output_dir) (w1, p, e + 1) rest"
    using assms(1) step by (simp add: process_entries_foldl)
  obtain w' p' e' where
    fin: "process_entries lib data_dir output_dir (w1, p, e + 1) rest = (w', p', e')"
    by (cases "process_entries lib data_dir output_dir (w1, p, e + 1) rest") auto
  from process_entries_counts [OF fin] have sum: "p' + e' = p + e + 1 + length rest"
    by simp
  from fin run
  have "process_entries lib data_dir output_dir st0 (before @ (k, ats) # rest) = (w', p', e')"
    by (simp add: process_entries_foldl)
  with sum have cnt: "\<exists>w' p' e'. process_entries lib data_dir output_dir st0 (before @ (k, ats) # rest) =
                          (w', p', e') \<and> p' + e' = p + e + 1 + length rest"
    by blast
  show ?thesis
    apply (rule exI [of _ err])
    using f step run cnt unfolding w1_def err_def by (intro conjI) simp_all
qed

theorem bad_timestamp_column_counted_and_skipped_witness:
  "process_entries demo_lib ''data'' (Some ''out'') (mixed_world, 0, 0) mixed_index =
     foldl (process_entry demo_lib ''data'' (Some ''out''))
       (mixed_world\<lparr>stdout := [Warning_file_not_found ''data/missing.csv'',
          Processing ''no_timestamp.csv'',
          Error_processing ''no_timestamp.csv'' (KeyError ''timestamp''),
          Processing ''bad_timestamp.csv'',
          Error_processing ''bad_timestamp.csv'' ValueError]\<rparr>, 0, 3)
       [(''sensorA.csv'', [''2024-01-01T00:00:05''])] \<and>
   fst (snd (process_entries demo_lib ''data'' (Some ''out'') (mixed_world, 0, 0) mixed_index)) = 1 \<and>
   snd (snd (process_entries demo_lib ''data'' (Some ''out'') (mixed_world, 0, 0) mixed_index)) = 3 \<and>
   files (fst (process_entries demo_lib ''data'' (Some ''out'') (mixed_world, 0, 0) mixed_index))
     ''out/no_timestamp.csv'' = None \<and>
   files (fst (process_entries demo_lib ''data'' (Some ''out'') (mixed_world, 0, 0) mixed_index))
     ''out/bad_timestamp.csv'' = None \<and>
   files (fst (process_entries demo_lib ''data'' (Some ''out'') (mixed_world, 0, 0) mixed_index))
     ''out/sensorA.csv'' = Some (File (Csv (sensorA_labelled [Num 0, Num 1, Num 0])))"
proof -
  define w1 where "w1 = mixed_world\<lparr>stdout := [Warning_file_not_found ''data/missing.csv'']\<rparr>"
  define w2 where "w2 = mixed_world\<lparr>stdout := [Warning_file_not_found ''data/missing.csv'',
          Processing ''no_timestamp.csv'',
          Error_processing ''no_timestamp.csv'' (KeyError ''timestamp'')]\<rparr>"
  define w3 where "w3 = mixed_world\<lparr>stdout := [Warning_file_not_found ''data/missing.csv'',
          Processing ''no_timestamp.csv'',
          Error_processing ''no_timestamp.csv'' (KeyError ''timestamp''),
          Processing ''bad_timestamp.csv'',
          Error_processing ''bad_timestamp.csv'' ValueError]\<rparr>"
  have idx: "mixed_index =
      [(''missing.csv'', [''2024-01-01T00:00:05'']), (''no_timestamp.csv'', [])] @
      (''bad_timestamp.csv'', [''2024-01-01T00:00:05'']) #
      [(''sensorA.csv'', [''2024-01-01T00:00:05''])]"
    by (simp add: mixed_index_def)
  have j: "path_join demo_lib ''data'' ''no_timestamp.csv'' = ''data/no_timestamp.csv''"
          "path_join demo_lib ''data'' ''bad_timestamp.csv'' = ''data/bad_timestamp.csv''"
    by (simp_all add: demo_lib_def)
  have h0: "foldl (process_entry demo_lib ''data'' (Some ''out'')) (mixed_world, 0, 0)
              [(''missing.csv'', [''2024-01-01T00:00:05''])] = (w1, 0, 1)"
    by (simp add: process_entry_def Let_def path_exists_def mixed_world_def demo_lib_def
        print_def w1_def)
  have a1: "files w1 (path_join demo_lib ''data'' ''no_timestamp.csv'') = Some (File (Csv no_timestamp))"
    unfolding j by (simp add: w1_def mixed_world_def)
  have a2: "read_csv demo_lib (Csv no_timestamp) = Inr no_timestamp"
    by (simp add: demo_lib_def)
  have a3: "''timestamp'' \<notin> fst ` set (columns no_timestamp) \<or>
         (\<exists>raw. get_col no_timestamp ''timestamp'' = Inr raw \<and>
                (\<exists>cell \<in> set raw. to_datetime demo_lib cell = None))"
    by (simp add: no_timestamp_def)
  note first = bad_timestamp_column_counted_and_skipped [OF h0 a1 a2 a3, of "[]" "[]"]
  have s1: "stdout w1 = [Warning_file_not_found ''data/missing.csv'']"
    by (simp add: w1_def)
  have k1: "''timestamp'' \<notin> fst ` set (columns no_timestamp)"
    by (simp add: no_timestamp_def)
  from first have "process_entries demo_lib ''data'' (Some ''out'') (mixed_world, 0, 0)
          ([(''missing.csv'', [''2024-01-01T00:00:05''])] @ (''no_timestamp.csv'', []) # []) =
        (w2, 0, 2)"
    unfolding s1 using k1 by (auto simp: w1_def w2_def)
  then have h1: "foldl (process_entry demo_lib ''data'' (Some ''out'')) (mixed_world, 0, 0)
              [(''missing.csv'', [''2024-01-01T00:00:05'']), (''no_timestamp.csv'', [])] = (w2, 0, 2)"
    by (simp add: process_entries_foldl)
  have b1: "files w2 (path_join demo_lib ''data'' ''bad_timestamp.csv'') = Some (File (Csv bad_timestamp))"
    unfolding j by (simp add: w2_def mixed_world_def)
  have b2: "read_csv demo_lib (Csv bad_timestamp) = Inr bad_timestamp"
    by (simp add: demo_lib_def)
  have b0: "''timestamp'' \<in> fst ` set (columns bad_timestamp)"
    by (simp add: bad_timestamp_def)
  have b3: "''timestamp'' \<notin> fst ` set (columns bad_timestamp) \<or>
         (\<exists>raw. get_col bad_timestamp ''timestamp'' = Inr raw \<and>
                (\<exists>cell \<in> set raw. to_datetime demo_lib cell = None))"
    by (simp add: bad_timestamp_def get_col_def demo_lib_def)
  note second = bad_timestamp_column_counted_and_skipped [OF h1 b1 b2 b3,
      of "[''2024-01-01T00:00:05'']" "[(''sensorA.csv'', [''2024-01-01T00:00:05''])]"]
  have s2: "stdout w2 = [Warning_file_not_found ''data/missing.csv'',
          Processing ''no_timestamp.csv'',
          Error_processing ''no_timestamp.csv'' (KeyError ''timestamp'')]"
    by (simp add: w2_def)
  from second have run: "process_entries demo_lib ''data'' (Some ''out'') (mixed_world, 0, 0) mixed_index =
     foldl (process_entry demo_lib ''data'' (Some ''out'')) (w3, 0, 3)
       [(''sensorA.csv'', [''2024-01-01T00:00:05''])]"
    unfolding idx [symmetric] s2 using b0 by (auto simp: w2_def w3_def)
  have "fst (snd (foldl (process_entry demo_lib ''data'' (Some ''out'')) (w3, 0, 3)
       [(''sensorA.csv'', [''2024-01-01T00:00:05''])])) = 1"
    unfolding w3_def by code_simp
  moreover have "snd (snd (foldl (process_entry demo_lib ''data'' (Some ''out'')) (w3, 0, 3)
       [(''sensorA.csv'', [''2024-01-01T00:00:05''])])) = 3"
    unfolding w3_def by code_simp
  moreover have "files (fst (foldl (process_entry demo_lib ''data'' (Some ''out'')) (w3, 0, 3)
       [(''sensorA.csv'', [''2024-01-01T00:00:05''])])) ''out/no_timestamp.csv'' = None"
    unfolding w3_def by code_simp
  moreover have "files (fst (foldl (process_entry demo_lib ''data'' (Some ''out'')) (w3, 0, 3)
       [(''sensorA.csv'', [''2024-01-01T00:00:05''])])) ''out/bad_timestamp.csv'' = None"
    unfolding w3_def by code_simp
  moreover have "files (fst (foldl (process_entry demo_lib ''data'' (Some ''out'')) (w3, 0, 3)
       [(''sensorA.csv'', [''2024-01-01T00:00:05''])])) ''out/sensorA.csv'' =
       Some (File (Csv (sensorA_labelled [Num 0, Num 1, Num 0])))"
    unfolding w3_def by code_simp
  ultimately show ?thesis
    unfolding run w3_def by (intro conjI) simp_all
qed

text \<open>
  Claim C9. Every iteration of the loop adds one to exactly one of the two counters. A run
  that has loaded the label index returns normally, and so prints its report, exactly when
  there is no output directory to make or \<^verbatim>\<open>os.makedirs\<close> makes it; and whenever the report is
  printed, its processed count and error count add up to the number of entries of the
  label index.
\<close>

theorem counters_sum_to_index_size:
  assumes "load_labels lib (files w) lf = Inr labels"
  shows "(\<forall>st entry. \<exists>w' p' e'.
            process_entry lib data_dir output_dir st entry = (w', p', e') \<and>
            ((p' = fst (snd st) + 1 \<and> e' = snd (snd st)) \<or>
             (p' = fst (snd st) \<and> e' = snd (snd st) + 1))) \<and>
         (fst (combine_datasets_with_labels lib data_dir lf output_dir w) = Inr () \<longleftrightarrow>
            mirror_root output_dir = None \<or>
            (\<exists>d fs. mirror_root output_dir = Some d \<and> makedirs lib (files w) d = (fs, None))) \<and>
         (fst (combine_datasets_with_labels lib data_dir lf output_dir w) = Inr () \<longrightarrow>
            (\<exists>w1 p e. snd (combine_datasets_with_labels lib data_dir lf output_dir w) =
               w1\<lparr>stdout := stdout w1 @
                 [Processing_complete, Successfully_processed p, Errors_encountered e]\<rparr> \<and>
               p + e = length labels))"
proof (intro conjI allI)
  fix st :: "'a run_state" and entry
  obtain w0 p0 e0 where st: "st = (w0, p0, e0)"
    by (cases st) auto
  obtain w' p' e' where s: "process_entry lib data_dir output_dir st entry = (w', p', e')"
    by (cases "process_entry lib data_dir output_dir st entry") auto
  with process_entry_counts [of lib data_dir output_dir w0 p0 e0 entry w' p' e'] st
  show "\<exists>w' p' e'.
            process_entry lib data_dir output_dir st entry = (w', p', e') \<and>
            ((p' = fst (snd st) + 1 \<and> e' = snd (snd st)) \<or>
             (p' = fst (snd st) \<and> e' = snd (snd st) + 1))"
    by auto
next
  show "fst (combine_datasets_with_labels lib data_dir lf output_dir w) = Inr () \<longleftrightarrow>
            mirror_root output_dir = None \<or>
            (\<exists>d fs. mirror_root output_dir = Some d \<and> makedirs lib (files w) d = (fs, None))"
    using assms
    by (auto simp: combine_datasets_with_labels_def Let_def
        split: option.splits prod.splits)
next
  show "fst (combine_datasets_with_labels lib data_dir lf output_dir w) = Inr () \<longrightarrow>
            (\<exists>w1 p e. snd (combine_datasets_with_labels lib data_dir lf output_dir w) =
               w1\<lparr>stdout := stdout w1 @
                 [Processing_complete, Successfully_processed p, Errors_encountered e]\<rparr> \<and>
               p + e = length labels)"
  proof
    assume ok: "fst (combine_datasets_with_labels lib data_dir lf output_dir w) = Inr ()"
    obtain fs eo where
      prep: "(case mirror_root output_dir of
               None \<Rightarrow> (files (print Loading_labels w), None)
             | Some d \<Rightarrow> makedirs lib (files (print Loading_labels w)) d) = (fs, eo)"
      by (cases "case mirror_root output_dir of
               None \<Rightarrow> (files (print Loading_labels w), None)
             | Some d \<Rightarrow> makedirs lib (files (print Loading_labels w)) d") auto
    have eo: "eo = None"
    proof (cases eo)
      case (Some err)
      with assms prep ok show ?thesis
        by (simp add: combine_datasets_with_labels_def Let_def)
    qed simp
    obtain w1 p e where
      run: "process_entries lib data_dir output_dir ((print Loading_labels w)\<lparr>files := fs\<rparr>, 0, 0) labels
              = (w1, p, e)"
      by (cases "process_entries lib data_dir output_dir
                   ((print Loading_labels w)\<lparr>files := fs\<rparr>, 0, 0) labels") auto
    from process_entries_counts [OF run] have sum: "p + e = length labels"
      by simp
    have "combine_datasets_with_labels lib data_dir lf output_dir w =
            (Inr (), print (Errors_encountered e)
                       (print (Successfully_processed p) (print Processing_complete w1)))"
      using assms prep eo run
      by (simp add: combine_datasets_with_labels_def Let_def)
    then have "snd (combine_datasets_with_labels lib data_dir lf output_dir w) =
            w1\<lparr>stdout := stdout w1 @
                 [Processing_complete, Successfully_processed p, Errors_encountered e]\<rparr>"
      by (simp add: print_def)
    with sum show "\<exists>w1 p e. snd (combine_datasets_with_labels lib data_dir lf output_dir w) =
               w1\<lparr>stdout := stdout w1 @
                 [Processing_complete, Successfully_processed p, Errors_encountered e]\<rparr> \<and>
               p + e = length labels"
      by blast
  qed
qed

theorem counters_sum_to_index_size_witness:
  "fst (combine_datasets_with_labels demo_lib ''data'' ''labels.json'' (Some ''out'') mixed_world)
     = Inr () \<and>
   (\<exists>w1 p e. snd (combine_datasets_with_labels demo_lib ''data'' ''labels.json'' (Some ''out'')
                    mixed_world) =
            w1\<lparr>stdout := stdout w1 @
               [Processing_complete, Successfully_processed p, Errors_encountered e]\<rparr> \<and>
            p + e = 4)"
proof -
  have l: "load_labels demo_lib (files mixed_world) ''labels.json'' = Inr mixed_index"
    by (simp add: load_labels_def open_read_def mixed_world_def demo_lib_def)
  have m: "makedirs demo_lib (files mixed_world) ''out'' = ((files mixed_world)(''out'' \<mapsto> Dir), None)"
    by (simp add: makedirs_def demo_lib_def mixed_world_def)
  have r: "mirror_root (Some ''out'') = Some ''out''"
    by (simp add: mirror_root_def)
  have n: "length mixed_index = 4"
    by (simp add: mixed_index_def)
  note inst = counters_sum_to_index_size [OF l, of "''data''" "Some ''out''"]
  from inst m r
  have ok: "fst (combine_datasets_with_labels demo_lib ''data'' ''labels.json'' (Some ''out'')
                   mixed_world) = Inr ()"
    by blast
  with inst show ?thesis
    unfolding n by blast
qed

text \<open>
  Claim C10. Once the prompt is reached, \<^verbatim>\<open>main\<close> runs in the mirrored mode exactly when
  the line typed is the string \<open>2\<close>; any other line, the empty one included, overwrites the
  files in place.
\<close>

theorem only_choice_2_selects_mirrored_mode:
  assumes "path_exists (files w) data_directory" and "path_exists (files w) labels_file"
  shows "main lib choice w =
           combine_datasets_with_labels lib data_directory labels_file
             (if choice = ''2'' then Some output_directory else None)
             (w\<lparr>stdout := stdout w @
                [Banner, Data_directory data_directory, Labels_file labels_file, Blank_line,
                 Choose_an_option,
                 if choice = ''2'' then Creating_output_directory output_directory
                 else Processing_files_in_place]\<rparr>) \<and>
         mirror_root (if choice = ''2'' then Some output_directory else None) =
           (if choice = ''2'' then Some output_directory else None)"
  using assms output_directory_not_empty
  by (simp add: main_def Let_def print_def mirror_root_def)

theorem only_choice_2_selects_mirrored_mode_witness:
  "main demo_lib ''1'' windows_world =
     combine_datasets_with_labels demo_lib data_directory labels_file None
       (windows_world\<lparr>stdout :=
          [Banner, Data_directory data_directory, Labels_file labels_file, Blank_line,
           Choose_an_option, Processing_files_in_place]\<rparr>) \<and>
   main demo_lib [] windows_world =
     combine_datasets_with_labels demo_lib data_directory labels_file None
       (windows_world\<lparr>stdout :=
          [Banner, Data_directory data_directory, Labels_file labels_file, Blank_line,
           Choose_an_option, Processing_files_in_place]\<rparr>) \<and>
   main demo_lib ''2'' windows_world =
     combine_datasets_with_labels demo_lib data_directory labels_file (Some output_directory)
       (windows_world\<lparr>stdout :=
          [Banner, Data_directory data_directory, Labels_file labels_file, Blank_line,
           Choose_an_option, Creating_output_directory output_directory]\<rparr>)"
proof -
  have d: "path_exists (files windows_world) data_directory"
    by (simp add: path_exists_def windows_world_def)
  have l: "path_exists (files windows_world) labels_file"
    by (simp add: path_exists_def windows_world_def)
  have s: "stdout windows_world = []"
    by (simp add: windows_world_def)
  from only_choice_2_selects_mirrored_mode [OF d l, of demo_lib "''1''"]
    only_choice_2_selects_mirrored_mode [OF d l, of demo_lib "[]"]
    only_choice_2_selects_mirrored_mode [OF d l, of demo_lib "''2''"]
  show ?thesis
    unfolding s by simp
qed

section \<open>The table that is written\<close>

lemma names_set_assign: "fst ` set (assign name v cs) = insert name (fst ` set cs)"
proof -
  have "set (map fst (assign name v cs)) = insert name (set (map fst cs))"
    unfolding names_assign by auto
  then show ?thesis by simp
qed

lemma process_entry_processed:
  assumes "fst (snd (process_entry lib data_dir output_dir (w, p, e) (k, ats))) = p + 1"
  shows "\<exists>df'. process_csv_file lib (files w) (path_join lib data_dir k) ats = Inr df' \<and>
           files (fst (process_entry lib data_dir output_dir (w, p, e) (k, ats)))
             (destination lib data_dir output_dir k) = Some (File (to_csv lib df'))"
proof (cases "process_csv_file lib (files w) (path_join lib data_dir k) ats")
  case (Inl err)
  with assms show ?thesis
    by (simp add: process_entry_def Let_def handle_exception_def split: if_splits)
next
  case (Inr df')
  from process_csv_file_Inr [THEN iffD1, OF Inr] obtain c df where
    a: "add_anomaly_column lib df ats = Inr df'" by blast
  have "\<exists>labels. get_col df' ''anomaly'' = Inr labels"
    using a unfolding add_anomaly_column_def Let_def loc_assign_def
    by (auto simp: get_col_set_col split: sum.splits if_splits)
  then obtain labels where l: "get_col df' ''anomaly'' = Inr labels" by blast
  note s = process_entry_success [OF Inr l, where output_dir = output_dir and p = p and e = e]
  from assms Inr show ?thesis
    unfolding s
    by (auto simp: save_processed_def destination_def Let_def handle_exception_def
        write_file_def split: option.splits prod.splits sum.splits node.splits)
qed

text \<open>
  Claim C7, as amended. When an entry is counted as processed, the file at its destination
  holds the serialisation of the labelled table. The columns of that table are the columns
  of the table read, in their order; the column \<open>anomaly\<close> comes after them when the table
  read has no column of that name, and otherwise stands where that column stood, with the
  labels in place of its cells. Every column other than \<open>timestamp\<close> and \<open>anomaly\<close> has the
  cells it had, and \<open>timestamp\<close> holds the parsed values of its cells.
\<close>

theorem label_column_position:
  assumes "files w (path_join lib data_dir k) = Some (File c)"
    and "read_csv lib c = Inr df" and "wf_df df"
    and "fst (snd (process_entry lib data_dir output_dir (w, p, e) (k, ats))) = p + 1"
  shows "\<exists>df' raw parsed.
           files (fst (process_entry lib data_dir output_dir (w, p, e) (k, ats)))
             (destination lib data_dir output_dir k) = Some (File (to_csv lib df')) \<and>
           process_csv_file lib (files w) (path_join lib data_dir k) ats = Inr df' \<and>
           map fst (columns df') =
             (if ''anomaly'' \<in> fst ` set (columns df) then map fst (columns df)
              else map fst (columns df) @ [''anomaly'']) \<and>
           (\<forall>name. name \<noteq> ''timestamp'' \<and> name \<noteq> ''anomaly'' \<longrightarrow>
                   get_col df' name = get_col df name) \<and>
           get_col df ''timestamp'' = Inr raw \<and> to_datetime_all lib raw = Inr parsed \<and>
           get_col df' ''timestamp'' = Inr (map Stamp parsed)"
proof -
  from process_entry_processed [OF assms(4)] obtain df' where
    d: "process_csv_file lib (files w) (path_join lib data_dir k) ats = Inr df'"
       "files (fst (process_entry lib data_dir output_dir (w, p, e) (k, ats)))
             (destination lib data_dir output_dir k) = Some (File (to_csv lib df'))"
    by blast
  from d(1) assms(1,2) have "add_anomaly_column lib df ats = Inr df'"
    by (simp add: process_csv_file_def open_read_def)
  from add_anomaly_column_result [OF this assms(3)] obtain raw parsed anomaly_times where
    r: "get_col df ''timestamp'' = Inr raw" "to_datetime_all lib raw = Inr parsed"
       "df' = set_col (set_col df ''timestamp'' (map Stamp parsed)) ''anomaly''
                   (map (label_of anomaly_times) parsed)"
    by blast
  from r(1) have ts: "''timestamp'' \<in> fst ` set (columns df)"
    by (auto simp: get_col_def split: option.splits dest: map_of_SomeD intro: rev_image_eqI)
  have names: "map fst (columns df') =
             (if ''anomaly'' \<in> fst ` set (columns df) then map fst (columns df)
              else map fst (columns df) @ [''anomaly''])"
    unfolding r(3) using ts by (simp add: set_col_def names_assign names_set_assign insert_absorb)
  have others: "\<forall>name. name \<noteq> ''timestamp'' \<and> name \<noteq> ''anomaly'' \<longrightarrow>
                   get_col df' name = get_col df name"
    unfolding r(3) by (simp add: get_col_set_col)
  have stamps: "get_col df' ''timestamp'' = Inr (map Stamp parsed)"
    unfolding r(3) by (simp add: get_col_set_col)
  show ?thesis
    apply (rule exI [of _ df'], rule exI [of _ raw], rule exI [of _ parsed])
    using d names others r(1,2) stamps by - (intro conjI; assumption)
qed

theorem label_column_position_witness:
  "\<exists>df'. files (fst (process_entry demo_lib ''data'' (Some ''out'') (sensor_world, 0, 0)
                      (''sensorA.csv'', [''2024-01-01T00:00:05''])))
            ''out/sensorA.csv'' = Some (File (Csv df')) \<and>
         map fst (columns df') = [''timestamp'', ''value'', ''anomaly''] \<and>
         get_col df' ''value'' = Inr [Str ''1.0'', Str ''9.5'', Str ''1.1'']"
proof -
  have h1: "files sensor_world (path_join demo_lib ''data'' ''sensorA.csv'') = Some (File (Csv sensorA))"
    by (simp add: demo_lib_def sensor_world_def)
  have h2: "read_csv demo_lib (Csv sensorA) = Inr sensorA"
    by (simp add: demo_lib_def)
  have h4: "fst (snd (process_entry demo_lib ''data'' (Some ''out'') (sensor_world, 0, 0)
                      (''sensorA.csv'', [''2024-01-01T00:00:05'']))) = 0 + 1"
    by code_simp
  have dest: "destination demo_lib ''data'' (Some ''out'') ''sensorA.csv'' = ''out/sensorA.csv''"
    by (simp add: destination_def mirror_root_def demo_lib_def)
  have names: "map fst (columns sensorA) = [''timestamp'', ''value'']"
    by (simp add: sensorA_def)
  have val: "get_col sensorA ''value'' = Inr [Str ''1.0'', Str ''9.5'', Str ''1.1'']"
    by (simp add: sensorA_def get_col_def)
  from label_column_position [OF h1 h2 wf_sensorA h4] obtain df' where
    d: "files (fst (process_entry demo_lib ''data'' (Some ''out'') (sensor_world, 0, 0)
                      (''sensorA.csv'', [''2024-01-01T00:00:05''])))
             (destination demo_lib ''data'' (Some ''out'') ''sensorA.csv'')
          = Some (File (to_csv demo_lib df'))"
       "map fst (columns df') =
             (if ''anomaly'' \<in> fst ` set (columns sensorA) then map fst (columns sensorA)
              else map fst (columns sensorA) @ [''anomaly''])"
       "\<forall>name. name \<noteq> ''timestamp'' \<and> name \<noteq> ''anomaly'' \<longrightarrow>
                   get_col df' name = get_col sensorA name"
    by blast
  have "''anomaly'' \<notin> fst ` set (columns sensorA)"
    by (simp add: sensorA_def)
  with d(2) names have n: "map fst (columns df') = [''timestamp'', ''value'', ''anomaly'']"
    by simp
  from d(3) val have v: "get_col df' ''value'' = Inr [Str ''1.0'', Str ''9.5'', Str ''1.1'']"
    by simp
  from d(1) have "files (fst (process_entry demo_lib ''data'' (Some ''out'') (sensor_world, 0, 0)
                      (''sensorA.csv'', [''2024-01-01T00:00:05''])))
            ''out/sensorA.csv'' = Some (File (Csv df'))"
    unfolding dest by (simp add: demo_lib_def)
  with n v show ?thesis
    by (intro exI [of _ df'] conjI)
qed

text \<open>
  The claim as the specification has it fails for a table that already has a column named
  \<open>anomaly\<close>: the run saves a table whose last column is not the label column and whose
  columns before the last are not the original ones.
\<close>

theorem label_column_position_counterexample:
  "wf_df relabel_in \<and>
   files (snd (combine_datasets_with_labels demo_lib ''data'' ''labels.json'' (Some ''out'')
                 relabel_world)) ''out/relabel.csv'' = Some (File (Csv relabel_out)) \<and>
   stdout (snd (combine_datasets_with_labels demo_lib ''data'' ''labels.json'' (Some ''out'')
                 relabel_world)) =
     [Loading_labels, Processing ''relabel.csv'', Total_points 1, Anomaly_points 0,
      Normal_points 1, Saved_to ''out/relabel.csv'', Processing_complete,
      Successfully_processed 1, Errors_encountered 0] \<and>
   butlast (columns relabel_out) \<noteq> columns relabel_in \<and>
   fst (last (columns relabel_out)) \<noteq> ''anomaly'' \<and>
   get_col relabel_in ''anomaly'' = Inr [Str ''yes''] \<and>
   get_col relabel_out ''anomaly'' = Inr [Num 0] \<and>
   get_col relabel_in ''timestamp'' = Inr [Str ''2024-01-01T00:00:05''] \<and>
   get_col relabel_out ''timestamp'' = Inr [Stamp ''2024-01-01 00:00:05'']"
  by code_simp

section \<open>Running the mirrored mode again\<close>

subsection \<open>File systems that only grow\<close>

lemma extends_refl: "extends s s"
  by (simp add: extends_def)

lemma extends_trans: "extends s t \<Longrightarrow> extends t u \<Longrightarrow> extends s u"
  unfolding extends_def by metis

lemma extends_mkdir: "s q = None \<Longrightarrow> extends s (s(q \<mapsto> Dir))"
  by (auto simp: extends_def)

lemma extends_write: "s q \<noteq> Some Dir \<Longrightarrow> extends s (s(q \<mapsto> File c))"
  by (auto simp: extends_def)

subsection \<open>Making directories\<close>

lemma mkdir_chain_extends: "extends s (fst (mkdir_chain s ds))"
proof (induction ds arbitrary: s)
  case Nil
  show ?case by (simp add: extends_refl)
next
  case (Cons q ds)
  show ?case
  proof (cases "s q")
    case None
    then have a: "extends s (s(q \<mapsto> Dir))" by (rule extends_mkdir)
    have b: "extends (s(q \<mapsto> Dir)) (fst (mkdir_chain (s(q \<mapsto> Dir)) ds))" by (rule Cons.IH)
    have "mkdir_chain s (q # ds) = mkdir_chain (s(q \<mapsto> Dir)) ds" using None by simp
    with extends_trans [OF a b] show ?thesis by (simp only:)
  next
    case (Some n)
    then show ?thesis using Cons.IH [of s] by (cases n) (simp_all add: extends_refl)
  qed
qed

lemma mkdir_chain_frame: "s q \<noteq> None \<or> q \<notin> set ds \<Longrightarrow> fst (mkdir_chain s ds) q = s q"
proof (induction ds arbitrary: s)
  case Nil
  show ?case by simp
next
  case (Cons d ds)
  show ?case
  proof (cases "s d")
    case None
    with Cons.prems have "q \<noteq> d" by auto
    with Cons.prems have "(s(d \<mapsto> Dir)) q \<noteq> None \<or> q \<notin> set ds" by auto
    then have "fst (mkdir_chain (s(d \<mapsto> Dir)) ds) q = (s(d \<mapsto> Dir)) q" by (rule Cons.IH)
    moreover have "mkdir_chain s (d # ds) = mkdir_chain (s(d \<mapsto> Dir)) ds" using None by simp
    ultimately show ?thesis using \<open>q \<noteq> d\<close> by simp
  next
    case (Some n)
    from Cons.prems have "s q \<noteq> None \<or> q \<notin> set ds" by auto
    then have "fst (mkdir_chain s ds) q = s q" by (rule Cons.IH)
    with Some show ?thesis by (cases n) simp_all
  qed
qed

lemma mkdir_chain_again:
  "extends (fst (mkdir_chain s ds)) t \<Longrightarrow> mkdir_chain t ds = (t, snd (mkdir_chain s ds))"
proof (induction ds arbitrary: s)
  case Nil
  show ?case by simp
next
  case (Cons d ds)
  show ?case
  proof (cases "s d")
    case None
    then have step: "mkdir_chain s (d # ds) = mkdir_chain (s(d \<mapsto> Dir)) ds" by simp
    with Cons.prems have ext: "extends (fst (mkdir_chain (s(d \<mapsto> Dir)) ds)) t" by simp
    have "fst (mkdir_chain (s(d \<mapsto> Dir)) ds) d = (s(d \<mapsto> Dir)) d"
      by (rule mkdir_chain_frame) simp
    with ext have "t d = Some Dir" by (simp add: extends_def)
    moreover have "mkdir_chain t ds = (t, snd (mkdir_chain (s(d \<mapsto> Dir)) ds))"
      using ext by (rule Cons.IH)
    ultimately show ?thesis unfolding step by simp
  next
    case (Some n)
    show ?thesis
    proof (cases n)
      case Dir
      with Some Cons.prems have ext: "extends (fst (mkdir_chain s ds)) t" by simp
      have "fst (mkdir_chain s ds) d = s d"
        by (rule mkdir_chain_frame) (simp add: Some)
      with ext Some Dir have "t d = Some Dir" by (simp add: extends_def)
      moreover have "mkdir_chain t ds = (t, snd (mkdir_chain s ds))"
        using ext by (rule Cons.IH)
      ultimately show ?thesis using Some Dir by simp
    next
      case (File c)
      with Some Cons.prems have "extends s t" by simp
      with Some File obtain c' where "t d = Some (File c')" by (auto simp: extends_def)
      with Some File show ?thesis by simp
    qed
  qed
qed

lemma makedirs_extends: "extends s (fst (makedirs lib s p))"
  by (simp add: makedirs_def mkdir_chain_extends extends_refl)

lemma makedirs_frame: "s q \<noteq> None \<or> q \<notin> set (chain lib p) \<Longrightarrow> fst (makedirs lib s p) q = s q"
  by (simp add: makedirs_def chain_def mkdir_chain_frame)

lemma makedirs_again:
  "extends (fst (makedirs lib s p)) t \<Longrightarrow> makedirs lib t p = (t, snd (makedirs lib s p))"
  by (cases "p = []") (simp_all add: makedirs_def mkdir_chain_again)

subsection \<open>One iteration and the loop, on the file system\<close>

lemma process_csv_file_cong:
  "s p = t p \<Longrightarrow> process_csv_file lib s p ats = process_csv_file lib t p ats"
  by (simp add: process_csv_file_def open_read_def)

lemma load_labels_cong:
  "s p = t p \<Longrightarrow> load_labels lib s p = load_labels lib t p"
  by (simp add: load_labels_def open_read_def)

lemma add_anomaly_column_has_labels:
  "add_anomaly_column lib df ats = Inr df' \<Longrightarrow> \<exists>labels. get_col df' ''anomaly'' = Inr labels"
  unfolding add_anomaly_column_def Let_def loc_assign_def
  by (auto simp: get_col_set_col split: sum.splits if_splits)

lemma process_csv_file_has_labels:
  "process_csv_file lib fs p ats = Inr df' \<Longrightarrow> \<exists>labels. get_col df' ''anomaly'' = Inr labels"
  by (auto simp: process_csv_file_Inr dest: add_anomaly_column_has_labels)

lemma process_csv_file_missing:
  "\<not> path_exists fs p \<Longrightarrow> \<exists>err. process_csv_file lib fs p ats = Inl err"
  by (simp add: process_csv_file_def open_read_def path_exists_def)

text \<open>What one iteration does to the file system, in the mirrored mode.\<close>

lemma files_process_entry_mirrored:
  assumes "mirror_root output_dir = Some d"
  shows "files (fst (process_entry lib data_dir output_dir (w, p, e) (k, ats))) =
     (case process_csv_file lib (files w) (path_join lib data_dir k) ats of
        Inl err \<Rightarrow> files w
      | Inr df \<Rightarrow>
          (case makedirs lib (files w) (path_dirname lib (path_join lib d k)) of
             (fs, Some err) \<Rightarrow> fs
           | (fs, None) \<Rightarrow>
               (case write_file fs (path_join lib d k) (to_csv lib df) of
                  Inl err \<Rightarrow> fs
                | Inr fs' \<Rightarrow> fs')))"
proof (cases "path_exists (files w) (path_join lib data_dir k)")
  case False
  from process_csv_file_missing [OF this] obtain err where
    "process_csv_file lib (files w) (path_join lib data_dir k) ats = Inl err" by blast
  with False show ?thesis
    by (simp add: process_entry_def Let_def)
next
  case True
  show ?thesis
  proof (cases "process_csv_file lib (files w) (path_join lib data_dir k) ats")
    case (Inl err)
    with True show ?thesis
      by (simp add: process_entry_def Let_def handle_exception_def)
  next
    case (Inr df)
    from process_csv_file_has_labels [OF this] obtain labels where
      "get_col df ''anomaly'' = Inr labels" by blast
    from process_entry_success [OF Inr this] assms Inr show ?thesis
      by (simp add: save_processed_def Let_def handle_exception_def
          split: prod.splits option.splits sum.splits)
  qed
qed

lemma files_process_entry:
  "files (fst (process_entry lib data_dir output_dir st entry)) =
     entry_files lib data_dir output_dir (files (fst st)) entry"
proof -
  obtain w p e where st: "st = (w, p, e)" by (cases st) auto
  obtain k ats where en: "entry = (k, ats)" by (cases entry) auto
  show ?thesis
  proof (cases "mirror_root output_dir")
    case (Some d)
    show ?thesis
      unfolding st en entry_files_def
      by (simp add: files_process_entry_mirrored [OF Some] cong: sum.case_cong)
  next
    case None
    show ?thesis
    proof (cases "path_exists (files w) (path_join lib data_dir k)")
      case False
      then show ?thesis
        unfolding st en entry_files_def
        by (simp add: process_entry_def Let_def path_exists_def)
    next
      case True
      then have ex: "path_exists (files \<lparr>files = files w, stdout = []\<rparr>) (path_join lib data_dir k)"
        by simp
      show ?thesis
      proof (cases "process_csv_file lib (files w) (path_join lib data_dir k) ats")
        case (Inl err)
        with True show ?thesis
          unfolding st en entry_files_def
          by (simp add: process_entry_def Let_def handle_exception_def)
      next
        case (Inr df)
        from process_csv_file_has_labels [OF this] obtain labels where
          l: "get_col df ''anomaly'' = Inr labels" by blast
        have Inr': "process_csv_file lib (files \<lparr>files = files w, stdout = []\<rparr>)
                      (path_join lib data_dir k) ats = Inr df"
          using Inr by simp
        note a = process_entry_success [OF Inr l, where output_dir = output_dir and p = p and e = e]
        note b = process_entry_success [OF Inr' l, where output_dir = output_dir and p = 0 and e = 0]
        show ?thesis
          unfolding st en entry_files_def fst_conv a b using None
          by (simp add: save_processed_def handle_exception_def split: sum.splits)
      qed
    qed
  qed
qed

lemma files_process_entries:
  "files (fst (process_entries lib data_dir output_dir st entries)) =
     entries_files lib data_dir output_dir (files (fst st)) entries"
proof (induction entries arbitrary: st)
  case Nil
  show ?case by (simp add: entries_files_def)
next
  case (Cons entry entries)
  have "files (fst (process_entries lib data_dir output_dir st (entry # entries))) =
        entries_files lib data_dir output_dir
          (files (fst (process_entry lib data_dir output_dir st entry))) entries"
    by (simp add: Cons.IH)
  also have "\<dots> = entries_files lib data_dir output_dir
          (files (fst (process_entry lib data_dir output_dir (\<lparr>files = files (fst st), stdout = []\<rparr>, 0, 0) entry))) entries"
    by (simp add: files_process_entry)
  also have "\<dots> = entries_files lib data_dir output_dir (files (fst st)) (entry # entries)"
    unfolding entries_files_def by (simp add: Cons.IH)
  finally show ?case .
qed

lemma entries_files_Nil: "entries_files lib data_dir output_dir fs [] = fs"
  by (simp add: entries_files_def)

lemma entries_files_Cons:
  "entries_files lib data_dir output_dir fs (entry # entries) =
     entries_files lib data_dir output_dir (entry_files lib data_dir output_dir fs entry) entries"
  unfolding entries_files_def entry_files_def by (simp add: files_process_entries)

lemma entry_files_mirrored:
  "mirror_root output_dir = Some d \<Longrightarrow>
   entry_files lib data_dir output_dir fs (k, ats) =
     (case process_csv_file lib fs (path_join lib data_dir k) ats of
        Inl err \<Rightarrow> fs
      | Inr df \<Rightarrow>
          (case makedirs lib fs (path_dirname lib (path_join lib d k)) of
             (fs', Some err) \<Rightarrow> fs'
           | (fs', None) \<Rightarrow>
               (case write_file fs' (path_join lib d k) (to_csv lib df) of
                  Inl err \<Rightarrow> fs'
                | Inr fs'' \<Rightarrow> fs'')))"
  unfolding entry_files_def by (simp add: files_process_entry_mirrored cong: sum.case_cong)

lemma write_file_Inl:
  "write_file s p c = Inl err \<longleftrightarrow> s p = Some Dir \<and> err = IsADirectoryError p"
  by (auto simp: write_file_def split: option.splits node.splits)

lemma write_file_Inr:
  "write_file s p c = Inr s' \<longleftrightarrow> s p \<noteq> Some Dir \<and> s' = s(p \<mapsto> File c)"
  by (auto simp: write_file_def split: option.splits node.splits)

text \<open>
  The three outcomes of an iteration in the mirrored mode: nothing is touched, only
  directories are made, or directories are made and the file is written.
\<close>

lemma entry_files_cases:
  assumes "mirror_root output_dir = Some d"
  obtains
    (failed) err where
      "process_csv_file lib s (path_join lib data_dir k) ats = Inl err"
      "entry_files lib data_dir output_dir s (k, ats) = s"
  | (blocked) df where
      "process_csv_file lib s (path_join lib data_dir k) ats = Inr df"
      "snd (makedirs lib s (path_dirname lib (path_join lib d k))) \<noteq> None \<or>
       fst (makedirs lib s (path_dirname lib (path_join lib d k))) (path_join lib d k) = Some Dir"
      "entry_files lib data_dir output_dir s (k, ats) =
         fst (makedirs lib s (path_dirname lib (path_join lib d k)))"
  | (written) df where
      "process_csv_file lib s (path_join lib data_dir k) ats = Inr df"
      "snd (makedirs lib s (path_dirname lib (path_join lib d k))) = None"
      "fst (makedirs lib s (path_dirname lib (path_join lib d k))) (path_join lib d k) \<noteq> Some Dir"
      "entry_files lib data_dir output_dir s (k, ats) =
         (fst (makedirs lib s (path_dirname lib (path_join lib d k))))
           (path_join lib d k \<mapsto> File (to_csv lib df))"
proof (cases "process_csv_file lib s (path_join lib data_dir k) ats")
  case (Inl err)
  then show ?thesis
    using failed by (simp add: entry_files_mirrored [OF assms])
next
  case (Inr df)
  obtain s' eo where m: "makedirs lib s (path_dirname lib (path_join lib d k)) = (s', eo)"
    by (cases "makedirs lib s (path_dirname lib (path_join lib d k))") auto
  show ?thesis
  proof (cases "eo = None \<and> s' (path_join lib d k) \<noteq> Some Dir")
    case True
    then have "write_file s' (path_join lib d k) (to_csv lib df) =
                 Inr (s'(path_join lib d k \<mapsto> File (to_csv lib df)))"
      by (simp add: write_file_Inr)
    with True Inr m show ?thesis
      using written [of df] by (simp add: entry_files_mirrored [OF assms])
  next
    case False
    have "entry_files lib data_dir output_dir s (k, ats) = s'"
    proof (cases eo)
      case None
      with False have "write_file s' (path_join lib d k) (to_csv lib df) =
                         Inl (IsADirectoryError (path_join lib d k))"
        by (simp add: write_file_Inl)
      with None Inr m show ?thesis
        by (simp add: entry_files_mirrored [OF assms])
    next
      case (Some err)
      with Inr m show ?thesis
        by (simp add: entry_files_mirrored [OF assms])
    qed
    with False Inr m show ?thesis
      using blocked [of df] by auto
  qed
qed

lemma entry_files_extends:
  assumes "mirror_root output_dir = Some d"
  shows "extends s (entry_files lib data_dir output_dir s (k, ats))"
proof -
  from assms show ?thesis
  proof (cases rule: entry_files_cases [where lib = lib and s = s and data_dir = data_dir and k = k and ats = ats])
    case (failed err)
    then show ?thesis by (simp add: extends_refl)
  next
    case (blocked df)
    then show ?thesis by (simp add: makedirs_extends)
  next
    case (written df)
    have "extends (fst (makedirs lib s (path_dirname lib (path_join lib d k))))
            (entry_files lib data_dir output_dir s (k, ats))"
      unfolding written(4) using written(3) by (rule extends_write)
    with makedirs_extends show ?thesis by (rule extends_trans)
  qed
qed

lemma entry_files_frame:
  assumes "mirror_root output_dir = Some d" and "q \<notin> set (touched lib d k)"
  shows "entry_files lib data_dir output_dir s (k, ats) q = s q"
proof -
  from assms(2) have q: "q \<noteq> path_join lib d k"
    "q \<notin> set (chain lib (path_dirname lib (path_join lib d k)))"
    by (simp_all add: touched_def)
  have m: "fst (makedirs lib s (path_dirname lib (path_join lib d k))) q = s q"
    using q(2) by (simp add: makedirs_frame)
  from assms(1) show ?thesis
  proof (cases rule: entry_files_cases [where lib = lib and s = s and data_dir = data_dir and k = k and ats = ats])
    case (failed err)
    then show ?thesis by simp
  next
    case (blocked df)
    with m show ?thesis by simp
  next
    case (written df)
    with m q(1) show ?thesis by simp
  qed
qed

lemma entry_files_keeps_file:
  assumes "mirror_root output_dir = Some d" and "s q = Some (File c)"
    and "q \<noteq> path_join lib d k"
  shows "entry_files lib data_dir output_dir s (k, ats) q = Some (File c)"
proof -
  have m: "fst (makedirs lib s (path_dirname lib (path_join lib d k))) q = s q"
    using assms(2) by (simp add: makedirs_frame)
  from assms(1) show ?thesis
  proof (cases rule: entry_files_cases [where lib = lib and s = s and data_dir = data_dir and k = k and ats = ats])
    case (failed err)
    with assms(2) show ?thesis by simp
  next
    case (blocked df)
    with m assms(2) show ?thesis by simp
  next
    case (written df)
    with m assms(2,3) show ?thesis by simp
  qed
qed

text \<open>An iteration changes nothing in a file system that already holds its effect.\<close>

lemma entry_files_again:
  assumes root: "mirror_root output_dir = Some d"
    and ext: "extends (entry_files lib data_dir output_dir s (k, ats)) t"
    and inp: "t (path_join lib data_dir k) = s (path_join lib data_dir k)"
    and out: "\<And>c. entry_files lib data_dir output_dir s (k, ats) (path_join lib d k) = Some (File c)
                \<Longrightarrow> t (path_join lib d k) = Some (File c)"
  shows "entry_files lib data_dir output_dir t (k, ats) = t"
proof -
  have same: "process_csv_file lib t (path_join lib data_dir k) ats =
              process_csv_file lib s (path_join lib data_dir k) ats"
    using inp by (rule process_csv_file_cong)
  from root show ?thesis
  proof (cases rule: entry_files_cases [where lib = lib and s = s and data_dir = data_dir and k = k and ats = ats])
    case (failed err)
    with same show ?thesis
      by (simp add: entry_files_mirrored [OF root])
  next
    case (blocked df)
    with ext have e: "extends (fst (makedirs lib s (path_dirname lib (path_join lib d k)))) t"
      by simp
    from makedirs_again [OF e]
    have m: "makedirs lib t (path_dirname lib (path_join lib d k)) =
               (t, snd (makedirs lib s (path_dirname lib (path_join lib d k))))" .
    show ?thesis
    proof (cases "snd (makedirs lib s (path_dirname lib (path_join lib d k)))")
      case (Some err)
      with same blocked(1) m show ?thesis
        by (simp add: entry_files_mirrored [OF root])
    next
      case None
      with blocked(2) e have "t (path_join lib d k) = Some Dir"
        by (simp add: extends_def)
      then have "write_file t (path_join lib d k) (to_csv lib df) =
                   Inl (IsADirectoryError (path_join lib d k))"
        by (simp add: write_file_Inl)
      with None same blocked(1) m show ?thesis
        by (simp add: entry_files_mirrored [OF root])
    qed
  next
    case (written df)
    have "extends (fst (makedirs lib s (path_dirname lib (path_join lib d k))))
            (entry_files lib data_dir output_dir s (k, ats))"
      unfolding written(4) using written(3) by (rule extends_write)
    from extends_trans [OF this ext]
    have e: "extends (fst (makedirs lib s (path_dirname lib (path_join lib d k)))) t" .
    from makedirs_again [OF e] written(2)
    have m: "makedirs lib t (path_dirname lib (path_join lib d k)) = (t, None)"
      by simp
    have "t (path_join lib d k) = Some (File (to_csv lib df))"
      by (rule out) (simp add: written(4))
    then have "write_file t (path_join lib d k) (to_csv lib df) = Inr t"
      by (auto simp: write_file_Inr)
    with same written(1) m show ?thesis
      by (simp add: entry_files_mirrored [OF root])
  qed
qed

lemma entries_files_extends:
  assumes "mirror_root output_dir = Some d"
  shows "extends s (entries_files lib data_dir output_dir s entries)"
proof (induction entries arbitrary: s)
  case Nil
  show ?case by (simp add: entries_files_Nil extends_refl)
next
  case (Cons entry entries)
  obtain k ats where en: "entry = (k, ats)" by (cases entry) auto
  have "extends s (entry_files lib data_dir output_dir s entry)"
    unfolding en using assms by (rule entry_files_extends)
  from extends_trans [OF this Cons.IH] show ?case
    by (simp add: entries_files_Cons)
qed

lemma entries_files_frame:
  assumes "mirror_root output_dir = Some d"
    and "\<forall>entry \<in> set entries. q \<notin> set (touched lib d (fst entry))"
  shows "entries_files lib data_dir output_dir s entries q = s q"
  using assms(2)
proof (induction entries arbitrary: s)
  case Nil
  show ?case by (simp add: entries_files_Nil)
next
  case (Cons entry entries)
  obtain k ats where en: "entry = (k, ats)" by (cases entry) auto
  from Cons.prems have "q \<notin> set (touched lib d k)" by (simp add: en)
  with assms(1) have "entry_files lib data_dir output_dir s (k, ats) q = s q"
    by (rule entry_files_frame)
  moreover from Cons.prems have "\<forall>entry \<in> set entries. q \<notin> set (touched lib d (fst entry))"
    by simp
  ultimately show ?case
    by (simp add: entries_files_Cons en Cons.IH)
qed

lemma entries_files_keeps_file:
  assumes "mirror_root output_dir = Some d"
    and "s q = Some (File c)"
    and "q \<notin> set (map (\<lambda>entry. path_join lib d (fst entry)) entries)"
  shows "entries_files lib data_dir output_dir s entries q = Some (File c)"
  using assms(2,3)
proof (induction entries arbitrary: s)
  case Nil
  then show ?case by (simp add: entries_files_Nil)
next
  case (Cons entry entries)
  obtain k ats where en: "entry = (k, ats)" by (cases entry) auto
  from Cons.prems have "q \<noteq> path_join lib d k" by (auto simp: en)
  with assms(1) Cons.prems(1)
  have "entry_files lib data_dir output_dir s (k, ats) q = Some (File c)"
    by (rule entry_files_keeps_file)
  moreover from Cons.prems have "q \<notin> set (map (\<lambda>entry. path_join lib d (fst entry)) entries)"
    by simp
  ultimately show ?case
    by (simp add: entries_files_Cons en Cons.IH)
qed

text \<open>Running the loop again on its own result changes nothing.\<close>

lemma entries_files_again:
  assumes root: "mirror_root output_dir = Some d"
    and "distinct (map (\<lambda>entry. path_join lib d (fst entry)) entries)"
    and "\<forall>a \<in> set entries. \<forall>b \<in> set entries.
           path_join lib data_dir (fst a) \<notin> set (touched lib d (fst b))"
  shows "entries_files lib data_dir output_dir
           (entries_files lib data_dir output_dir s entries) entries =
         entries_files lib data_dir output_dir s entries"
  using assms(2,3)
proof (induction entries arbitrary: s)
  case Nil
  show ?case by (simp add: entries_files_Nil)
next
  case (Cons entry entries)
  obtain k ats where en: "entry = (k, ats)" by (cases entry) auto
  define r where "r = entry_files lib data_dir output_dir s (k, ats)"
  define t where "t = entries_files lib data_dir output_dir r entries"
  have final: "entries_files lib data_dir output_dir s (entry # entries) = t"
    by (simp add: entries_files_Cons en r_def t_def)
  have ext: "extends r t"
    unfolding t_def using root by (rule entries_files_extends)
  have "t (path_join lib data_dir k) = r (path_join lib data_dir k)"
    unfolding t_def using root
  proof (rule entries_files_frame)
    show "\<forall>b \<in> set entries. path_join lib data_dir k \<notin> set (touched lib d (fst b))"
      using Cons.prems(2) by (simp add: en)
  qed
  also have "\<dots> = s (path_join lib data_dir k)"
    unfolding r_def using root
  proof (rule entry_files_frame)
    show "path_join lib data_dir k \<notin> set (touched lib d k)"
      using Cons.prems(2) by (simp add: en)
  qed
  finally have inp: "t (path_join lib data_dir k) = s (path_join lib data_dir k)" .
  have out: "t (path_join lib d k) = Some (File c)"
    if "r (path_join lib d k) = Some (File c)" for c
    unfolding t_def using root that
  proof (rule entries_files_keeps_file)
    show "path_join lib d k \<notin> set (map (\<lambda>entry. path_join lib d (fst entry)) entries)"
      using Cons.prems(1) by (simp add: en)
  qed
  have again: "entry_files lib data_dir output_dir t (k, ats) = t"
    using root ext [unfolded r_def] inp out [unfolded r_def] by (rule entry_files_again)
  have "entries_files lib data_dir output_dir t entries = t"
    unfolding t_def
  proof (rule Cons.IH)
    show "distinct (map (\<lambda>entry. path_join lib d (fst entry)) entries)"
      using Cons.prems(1) by simp
    show "\<forall>a \<in> set entries. \<forall>b \<in> set entries.
           path_join lib data_dir (fst a) \<notin> set (touched lib d (fst b))"
      using Cons.prems(2) by simp
  qed
  with again show ?case
    unfolding final by (simp add: entries_files_Cons en)
qed

lemma files_process_entries_result:
  "process_entries lib data_dir output_dir st entries = (w', p', e') \<Longrightarrow>
     files w' = entries_files lib data_dir output_dir (files (fst st)) entries"
  using files_process_entries [of lib data_dir output_dir st entries] by simp

text \<open>The file system and the result of a whole run in the mirrored mode.\<close>

lemma combine_mirrored:
  assumes "mirror_root output_dir = Some d"
  shows "files (snd (combine_datasets_with_labels lib data_dir lf output_dir w)) =
           (case load_labels lib (files w) lf of
              Inl err \<Rightarrow> files w
            | Inr labels \<Rightarrow>
                (case snd (makedirs lib (files w) d) of
                   Some err \<Rightarrow> fst (makedirs lib (files w) d)
                 | None \<Rightarrow> entries_files lib data_dir output_dir
                             (fst (makedirs lib (files w) d)) labels))"
    and "fst (combine_datasets_with_labels lib data_dir lf output_dir w) =
           (case load_labels lib (files w) lf of
              Inl err \<Rightarrow> Inl err
            | Inr labels \<Rightarrow>
                (case snd (makedirs lib (files w) d) of
                   Some err \<Rightarrow> Inl err
                 | None \<Rightarrow> Inr ()))"
  using assms
  by (auto simp: combine_datasets_with_labels_def Let_def
      split: sum.splits prod.splits option.splits dest: files_process_entries_result)

lemma mkdir_chain_only_dirs:
  "fst (mkdir_chain s ds) q = s q \<or> fst (mkdir_chain s ds) q = Some Dir"
proof (induction ds arbitrary: s)
  case Nil
  show ?case by simp
next
  case (Cons d ds)
  show ?case
  proof (cases "s d")
    case None
    have "fst (mkdir_chain (s(d \<mapsto> Dir)) ds) q = (s(d \<mapsto> Dir)) q \<or>
          fst (mkdir_chain (s(d \<mapsto> Dir)) ds) q = Some Dir"
      by (rule Cons.IH)
    with None show ?thesis by (cases "q = d") simp_all
  next
    case (Some n)
    have "fst (mkdir_chain s ds) q = s q \<or> fst (mkdir_chain s ds) q = Some Dir"
      by (rule Cons.IH)
    with Some show ?thesis by (cases n) simp_all
  qed
qed

lemma makedirs_no_new_file:
  "fst (makedirs lib s p) q = Some (File c) \<Longrightarrow> s q = Some (File c)"
  using mkdir_chain_only_dirs [of s "path_parents lib p @ [p]" q]
  by (auto simp: makedirs_def split: if_splits)

text \<open>A file found after an iteration was there before, or is the table of the entry.\<close>

lemma entry_files_file:
  assumes "mirror_root output_dir = Some d"
    and "entry_files lib data_dir output_dir s (k, ats) q = Some (File c)"
  shows "s q = Some (File c) \<or>
         (q = path_join lib d k \<and>
          (\<exists>df. process_csv_file lib s (path_join lib data_dir k) ats = Inr df \<and>
                c = to_csv lib df))"
  using assms(1)
proof (cases rule: entry_files_cases [where lib = lib and s = s and data_dir = data_dir
      and k = k and ats = ats])
  case (failed err)
  with assms(2) show ?thesis by simp
next
  case (blocked df)
  with assms(2) show ?thesis by (auto dest: makedirs_no_new_file)
next
  case (written df)
  show ?thesis
  proof (cases "q = path_join lib d k")
    case True
    with assms(2) written(1,4) show ?thesis by simp
  next
    case False
    with assms(2) written(4) show ?thesis by (auto dest: makedirs_no_new_file)
  qed
qed

lemma entries_files_no_new_file:
  assumes "mirror_root output_dir = Some d"
    and "entries_files lib data_dir output_dir s entries q = Some (File c)"
    and "q \<notin> set (map (\<lambda>entry. path_join lib d (fst entry)) entries)"
  shows "s q = Some (File c)"
  using assms(2,3)
proof (induction entries arbitrary: s)
  case Nil
  then show ?case by (simp add: entries_files_Nil)
next
  case (Cons entry entries)
  obtain k ats where en: "entry = (k, ats)" by (cases entry) auto
  have "entry_files lib data_dir output_dir s (k, ats) q = Some (File c)"
  proof (rule Cons.IH)
    show "entries_files lib data_dir output_dir (entry_files lib data_dir output_dir s (k, ats))
            entries q = Some (File c)"
      using Cons.prems(1) by (simp add: entries_files_Cons en)
    show "q \<notin> set (map (\<lambda>entry. path_join lib d (fst entry)) entries)"
      using Cons.prems(2) by simp
  qed
  from entry_files_file [OF assms(1) this] Cons.prems(2) show ?case
    by (simp add: en)
qed

text \<open>
  A file that the loop leaves at the path of an entry, where there was none, is the
  serialisation of the table that the entry gives on the file system the loop started with.
\<close>

lemma entries_files_saved:
  assumes root: "mirror_root output_dir = Some d"
    and "distinct (map (\<lambda>entry. path_join lib d (fst entry)) entries)"
    and "\<forall>a \<in> set entries. \<forall>b \<in> set entries.
           path_join lib data_dir (fst a) \<notin> set (touched lib d (fst b))"
    and "(k, ats) \<in> set entries"
    and "\<forall>c. s (path_join lib d k) \<noteq> Some (File c)"
    and "entries_files lib data_dir output_dir s entries (path_join lib d k) = Some (File c)"
  shows "\<exists>df. process_csv_file lib s (path_join lib data_dir k) ats = Inr df \<and> c = to_csv lib df"
  using assms(2-6)
proof (induction entries arbitrary: s)
  case Nil
  then show ?case by simp
next
  case (Cons entry entries)
  obtain k' ats' where en: "entry = (k', ats')" by (cases entry) auto
  define r where "r = entry_files lib data_dir output_dir s (k', ats')"
  have fin: "entries_files lib data_dir output_dir r entries (path_join lib d k) = Some (File c)"
    using Cons.prems(5) by (simp add: entries_files_Cons en r_def)
  show ?case
  proof (cases "path_join lib d k' = path_join lib d k")
    case True
    with Cons.prems(1) have "path_join lib d k \<notin> set (map (\<lambda>entry. path_join lib d (fst entry)) entries)"
      by (simp add: en)
    with root fin have "r (path_join lib d k) = Some (File c)"
      by (rule entries_files_no_new_file)
    from entry_files_file [OF root this [unfolded r_def]] Cons.prems(4) obtain df where
      df: "process_csv_file lib s (path_join lib data_dir k') ats' = Inr df" "c = to_csv lib df"
      by auto
    have "(k, ats) = (k', ats')"
    proof (rule ccontr)
      assume "(k, ats) \<noteq> (k', ats')"
      with Cons.prems(3) have "(k, ats) \<in> set entries" by (auto simp: en)
      then have "path_join lib d (fst (k, ats)) \<in> (\<lambda>entry. path_join lib d (fst entry)) ` set entries"
        by (rule imageI)
      then have "path_join lib d k \<in> set (map (\<lambda>entry. path_join lib d (fst entry)) entries)"
        by simp
      with Cons.prems(1) True show False by (simp add: en)
    qed
    with df show ?thesis by auto
  next
    case False
    with Cons.prems(3) have mem: "(k, ats) \<in> set entries" by (auto simp: en)
    have nofile: "\<forall>c. r (path_join lib d k) \<noteq> Some (File c)"
    proof (intro allI notI)
      fix c'
      assume "r (path_join lib d k) = Some (File c')"
      from entry_files_file [OF root this [unfolded r_def]] Cons.prems(4) False
      show False by auto
    qed
    have "r (path_join lib data_dir k) = s (path_join lib data_dir k)"
      unfolding r_def using root
    proof (rule entry_files_frame)
      have "(k, ats) \<in> set (entry # entries)" "(k', ats') \<in> set (entry # entries)"
        using Cons.prems(3) by (simp_all add: en)
      with Cons.prems(2)
      have "path_join lib data_dir (fst (k, ats)) \<notin> set (touched lib d (fst (k', ats')))"
        by blast
      then show "path_join lib data_dir k \<notin> set (touched lib d k')"
        by simp
    qed
    then have same: "process_csv_file lib r (path_join lib data_dir k) ats =
                     process_csv_file lib s (path_join lib data_dir k) ats"
      by (rule process_csv_file_cong)
    have "\<exists>df. process_csv_file lib r (path_join lib data_dir k) ats = Inr df \<and> c = to_csv lib df"
    proof (rule Cons.IH)
      show "distinct (map (\<lambda>entry. path_join lib d (fst entry)) entries)"
        using Cons.prems(1) by simp
      show "\<forall>a \<in> set entries. \<forall>b \<in> set entries.
           path_join lib data_dir (fst a) \<notin> set (touched lib d (fst b))"
        using Cons.prems(2) by simp
    qed (fact mem nofile fin)+
    with same show ?thesis by simp
  qed
qed

lemma combine_saved:
  assumes "d \<noteq> []"
    and "load_labels lib (files w) lf = Inr labels"
    and "separate lib data_dir d lf labels"
    and "(k, ats) \<in> set labels"
    and "files w (path_join lib d k) = None"
    and "files (snd (combine_datasets_with_labels lib data_dir lf (Some d) w)) (path_join lib d k)
           = Some (File c)"
  shows "\<exists>df. process_csv_file lib (files w) (path_join lib data_dir k) ats = Inr df \<and>
              c = to_csv lib df"
proof -
  have root: "mirror_root (Some d) = Some d"
    using assms(1) by (simp add: mirror_root_def)
  define s0 where "s0 = fst (makedirs lib (files w) d)"
  have nofile: "\<forall>c. s0 (path_join lib d k) \<noteq> Some (File c)"
    unfolding s0_def using assms(5) by (auto dest: makedirs_no_new_file)
  note first = combine_mirrored(1) [OF root, of lib data_dir lf w]
  have run: "entries_files lib data_dir (Some d) s0 labels (path_join lib d k) = Some (File c)"
  proof (cases "snd (makedirs lib (files w) d)")
    case (Some err)
    with assms(2,6) nofile show ?thesis
      by (simp add: first s0_def)
  next
    case None
    with assms(2,6) show ?thesis
      by (simp add: first s0_def)
  qed
  have mem: "path_join lib data_dir (fst (k, ats)) \<in>
               set (lf # map (\<lambda>entry. path_join lib data_dir (fst entry)) labels)"
    using assms(4) by (simp add: rev_image_eqI)
  with assms(3) have "path_join lib data_dir k \<notin> set (chain lib d)"
    unfolding separate_def by auto
  then have "s0 (path_join lib data_dir k) = files w (path_join lib data_dir k)"
    unfolding s0_def by (simp add: makedirs_frame)
  then have same: "process_csv_file lib s0 (path_join lib data_dir k) ats =
                   process_csv_file lib (files w) (path_join lib data_dir k) ats"
    by (rule process_csv_file_cong)
  have "\<exists>df. process_csv_file lib s0 (path_join lib data_dir k) ats = Inr df \<and> c = to_csv lib df"
    using root
  proof (rule entries_files_saved)
    show "distinct (map (\<lambda>entry. path_join lib d (fst entry)) labels)"
      using assms(3) by (simp add: separate_def)
    show "\<forall>a \<in> set labels. \<forall>b \<in> set labels.
           path_join lib data_dir (fst a) \<notin> set (touched lib d (fst b))"
      using assms(3) by (simp add: separate_def)
  qed (fact assms(4) nofile run)+
  with same show ?thesis by simp
qed

lemma mirrored_rerun:
  assumes "d \<noteq> []"
    and "\<forall>labels. load_labels lib (files w) lf = Inr labels \<longrightarrow>
           separate lib data_dir d lf labels"
  shows "files (snd (combine_datasets_with_labels lib data_dir lf (Some d)
                  (snd (combine_datasets_with_labels lib data_dir lf (Some d) w)))) =
         files (snd (combine_datasets_with_labels lib data_dir lf (Some d) w)) \<and>
         fst (combine_datasets_with_labels lib data_dir lf (Some d)
                  (snd (combine_datasets_with_labels lib data_dir lf (Some d) w))) =
         fst (combine_datasets_with_labels lib data_dir lf (Some d) w)"
proof -
  have root: "mirror_root (Some d) = Some d"
    using assms(1) by (simp add: mirror_root_def)
  define w1 where "w1 = snd (combine_datasets_with_labels lib data_dir lf (Some d) w)"
  note first = combine_mirrored [OF root, of lib data_dir lf w]
  note second = combine_mirrored [OF root, of lib data_dir lf w1]
  show ?thesis
  proof (cases "load_labels lib (files w) lf")
    case (Inl err)
    then have f: "files w1 = files w"
      unfolding w1_def by (simp add: first)
    then have "load_labels lib (files w1) lf = Inl err"
      using Inl by simp
    with Inl f show ?thesis
      unfolding w1_def [symmetric] by (simp add: first second)
  next
    case (Inr labels)
    with assms(2) have sep: "separate lib data_dir d lf labels"
      by simp
    define s0 where "s0 = fst (makedirs lib (files w) d)"
    have lf0: "s0 lf = files w lf"
      unfolding s0_def using sep by (intro makedirs_frame) (simp add: separate_def)
    show ?thesis
    proof (cases "snd (makedirs lib (files w) d)")
      case (Some err)
      with Inr have f: "files w1 = s0"
        unfolding w1_def s0_def by (simp add: first)
      have "load_labels lib s0 lf = load_labels lib (files w) lf"
        using lf0 by (rule load_labels_cong)
      with Inr have l: "load_labels lib (files w1) lf = Inr labels"
        unfolding f by simp
      have "extends (fst (makedirs lib (files w) d)) s0"
        unfolding s0_def by (rule extends_refl)
      from makedirs_again [OF this] Some have "makedirs lib s0 d = (s0, Some err)"
        by simp
      with Inr Some l f show ?thesis
        unfolding w1_def [symmetric] by (simp add: first second)
    next
      case None
      with Inr have f: "files w1 = entries_files lib data_dir (Some d) s0 labels"
        unfolding w1_def s0_def by (simp add: first)
      have "files w1 lf = s0 lf"
        unfolding f using root
      proof (rule entries_files_frame)
        show "\<forall>entry \<in> set labels. lf \<notin> set (touched lib d (fst entry))"
          using sep by (simp add: separate_def)
      qed
      with lf0 have "files w1 lf = files w lf" by simp
      then have "load_labels lib (files w1) lf = load_labels lib (files w) lf"
        by (rule load_labels_cong)
      with Inr have l: "load_labels lib (files w1) lf = Inr labels" by simp
      have "extends (fst (makedirs lib (files w) d)) (files w1)"
        unfolding f s0_def [symmetric] using root by (rule entries_files_extends)
      from makedirs_again [OF this] None have m: "makedirs lib (files w1) d = (files w1, None)"
        by simp
      have "entries_files lib data_dir (Some d) (files w1) labels = files w1"
        unfolding f using root
      proof (rule entries_files_again)
        show "distinct (map (\<lambda>entry. path_join lib d (fst entry)) labels)"
          using sep by (simp add: separate_def)
        show "\<forall>a \<in> set labels. \<forall>b \<in> set labels.
           path_join lib data_dir (fst a) \<notin> set (touched lib d (fst b))"
          using sep by (simp add: separate_def)
      qed
      with Inr None l m show ?thesis
        unfolding w1_def [symmetric] by (simp add: first second)
    qed
  qed
qed


text \<open>
  Claim C8. In the mirrored mode, when the mirrored tree is separate from the label file
  and the data files, a second run on the world the first run left ends with the same
  result and leaves every file as the first run wrote it, the label columns included.
  Moreover a file that a run saves for an entry, at a path where there was none, is the
  serialisation of the table that \<^verbatim>\<open>process_csv_file\<close> gives for the data file and the
  anomaly list of the entry on the file system the run started with: what is saved depends
  on these inputs alone.
\<close>

theorem mirrored_rerun_writes_same_files:
  assumes "d \<noteq> []"
    and "\<forall>labels. load_labels lib (files w) lf = Inr labels \<longrightarrow>
           separate lib data_dir d lf labels"
  shows "files (snd (combine_datasets_with_labels lib data_dir lf (Some d)
                  (snd (combine_datasets_with_labels lib data_dir lf (Some d) w)))) =
         files (snd (combine_datasets_with_labels lib data_dir lf (Some d) w)) \<and>
         fst (combine_datasets_with_labels lib data_dir lf (Some d)
                  (snd (combine_datasets_with_labels lib data_dir lf (Some d) w))) =
         fst (combine_datasets_with_labels lib data_dir lf (Some d) w) \<and>
         (\<forall>labels k ats c.
            load_labels lib (files w) lf = Inr labels \<and> (k, ats) \<in> set labels \<and>
            files w (path_join lib d k) = None \<and>
            files (snd (combine_datasets_with_labels lib data_dir lf (Some d) w))
              (path_join lib d k) = Some (File c) \<longrightarrow>
            (\<exists>df. process_csv_file lib (files w) (path_join lib data_dir k) ats = Inr df \<and>
                  c = to_csv lib df))"
proof (intro conjI allI impI)
  show "files (snd (combine_datasets_with_labels lib data_dir lf (Some d)
                  (snd (combine_datasets_with_labels lib data_dir lf (Some d) w)))) =
         files (snd (combine_datasets_with_labels lib data_dir lf (Some d) w))"
    using mirrored_rerun [OF assms] by simp
  show "fst (combine_datasets_with_labels lib data_dir lf (Some d)
                  (snd (combine_datasets_with_labels lib data_dir lf (Some d) w))) =
         fst (combine_datasets_with_labels lib data_dir lf (Some d) w)"
    using mirrored_rerun [OF assms] by simp
next
  fix labels k ats c
  assume a: "load_labels lib (files w) lf = Inr labels \<and> (k, ats) \<in> set labels \<and>
            files w (path_join lib d k) = None \<and>
            files (snd (combine_datasets_with_labels lib data_dir lf (Some d) w))
              (path_join lib d k) = Some (File c)"
  with assms(2) have sep: "separate lib data_dir d lf labels"
    by simp
  from a have b: "load_labels lib (files w) lf = Inr labels" "(k, ats) \<in> set labels"
    "files w (path_join lib d k) = None"
    "files (snd (combine_datasets_with_labels lib data_dir lf (Some d) w))
              (path_join lib d k) = Some (File c)"
    by simp_all
  from assms(1) b(1) sep b(2,3,4)
  show "\<exists>df. process_csv_file lib (files w) (path_join lib data_dir k) ats = Inr df \<and>
                  c = to_csv lib df"
    by (rule combine_saved)
qed

theorem mirrored_rerun_writes_same_files_witness:
  "files (snd (combine_datasets_with_labels demo_lib ''data'' ''labels.json'' (Some ''out'')
            (snd (combine_datasets_with_labels demo_lib ''data'' ''labels.json'' (Some ''out'')
                    mixed_world)))) =
   files (snd (combine_datasets_with_labels demo_lib ''data'' ''labels.json'' (Some ''out'')
            mixed_world)) \<and>
   (\<exists>df. process_csv_file demo_lib (files mixed_world) ''data/sensorA.csv''
            [''2024-01-01T00:00:05''] = Inr df \<and>
         Csv (sensorA_labelled [Num 0, Num 1, Num 0]) = to_csv demo_lib df)"
proof -
  have l: "load_labels demo_lib (files mixed_world) ''labels.json'' = Inr mixed_index"
    by (simp add: load_labels_def open_read_def mixed_world_def demo_lib_def)
  have sep: "separate demo_lib ''data'' ''out'' ''labels.json'' mixed_index"
    by (simp add: separate_def touched_def chain_def mixed_index_def demo_lib_def demo_dirname_def)
  have h: "\<forall>labels. load_labels demo_lib (files mixed_world) ''labels.json'' = Inr labels \<longrightarrow>
             separate demo_lib ''data'' ''out'' ''labels.json'' labels"
    using l sep by simp
  have n: "''out'' \<noteq> []"
    by simp
  have j: "path_join demo_lib ''out'' ''sensorA.csv'' = ''out/sensorA.csv''"
          "path_join demo_lib ''data'' ''sensorA.csv'' = ''data/sensorA.csv''"
    by (simp_all add: demo_lib_def)
  have m: "(''sensorA.csv'', [''2024-01-01T00:00:05'']) \<in> set mixed_index"
    by (simp add: mixed_index_def)
  have fresh: "files mixed_world (path_join demo_lib ''out'' ''sensorA.csv'') = None"
    unfolding j by (simp add: mixed_world_def)
  have out: "files (snd (combine_datasets_with_labels demo_lib ''data'' ''labels.json'' (Some ''out'')
            mixed_world)) (path_join demo_lib ''out'' ''sensorA.csv'') =
     Some (File (Csv (sensorA_labelled [Num 0, Num 1, Num 0])))"
    unfolding j by code_simp
  note inst = mirrored_rerun_writes_same_files [OF n h]
  from inst have same: "files (snd (combine_datasets_with_labels demo_lib ''data'' ''labels.json'' (Some ''out'')
            (snd (combine_datasets_with_labels demo_lib ''data'' ''labels.json'' (Some ''out'')
                    mixed_world)))) =
   files (snd (combine_datasets_with_labels demo_lib ''data'' ''labels.json'' (Some ''out'')
            mixed_world))"
    by (rule conjunct1)
  from inst l m fresh out
  have "\<exists>df. process_csv_file demo_lib (files mixed_world)
               (path_join demo_lib ''data'' ''sensorA.csv'') [''2024-01-01T00:00:05''] = Inr df \<and>
             Csv (sensorA_labelled [Num 0, Num 1, Num 0]) = to_csv demo_lib df"
    by blast
  with same show ?thesis
    unfolding j by (rule conjI)
qed

end
